theory Spec2Isabelle
  imports Complex_Main "HOL-Library.Multiset" "HOL-Library.Sublist"
begin

section \<open>RecruitIQ: the scoring and ranking pages of recrute.py\<close>

text \<open>
  The program is a Streamlit script over three collaborators: the repository module
  \<open>data\<close> (sessions, candidates, scores), the metric registry \<open>tab_interview.METRICS\<close>
  and the pandas data frame library. The repository and the registry are inputs of the
  model. The data frame operations the pages call are modelled after the library's
  documented behaviour, one definition per operation, and named after it.

  Numbers are Python floats in the source. The model computes over \<open>real\<close>, so rounding
  is not represented; the one float value that is not a number and that the pages do
  produce, NaN (pandas' marker of a missing cell), is \<open>None\<close> of the type \<open>cell\<close>.
\<close>

subsection \<open>Repository records\<close>

type_synonym cell = "real option"

record session =
  sess_id :: nat
  sess_name :: string
  sess_date :: "string option"

record candidate =
  cand_id :: nat
  cand_name :: string
  cand_email :: "string option"
  cand_position :: "string option"
  cand_experience :: "nat option"

record score =
  metric :: string
  svalue :: real

record repo =
  list_sessions :: "session list"
  list_candidates :: "nat \<Rightarrow> candidate list"
  get_scores_for_candidate :: "nat \<Rightarrow> score list"

datatype error = KeyError string

subsection \<open>Python dictionaries, in insertion order\<close>

text \<open>
  \<open>d[k] = v\<close>: a key that is already there keeps its place and takes the new value, a new
  key goes to the end.
\<close>

fun dict_set :: "'k \<Rightarrow> 'v \<Rightarrow> ('k \<times> 'v) list \<Rightarrow> ('k \<times> 'v) list" where
  "dict_set k v [] = [(k, v)]"
| "dict_set k v (p # d) = (if fst p = k then (k, v) # d else p # dict_set k v d)"

definition dict_keys :: "('k \<times> 'v) list \<Rightarrow> 'k list" where
  "dict_keys d = map fst d"

definition dict_get :: "('k \<times> 'v) list \<Rightarrow> 'k \<Rightarrow> 'v option" where
  "dict_get d k = map_of d k"

text \<open>\<open>d[k]\<close> raises KeyError on a key that is not there.\<close>

definition dict_item :: "(string \<times> 'v) list \<Rightarrow> string \<Rightarrow> error + 'v" where
  "dict_item d k = (case map_of d k of None \<Rightarrow> Inl (KeyError k) | Some v \<Rightarrow> Inr v)"

subsection \<open>Data frame operations\<close>

text \<open>
  \<open>pd.DataFrame(list_of_dicts)\<close> takes as columns the keys of the dictionaries, each once,
  in the order in which they are first met (row by row, key by key).
\<close>

definition fast_unique :: "'a list \<Rightarrow> 'a list" where
  "fast_unique xs = fold (\<lambda>x uniques. if x \<in> set uniques then uniques else uniques @ [x]) xs []"

definition frame_columns :: "'a list list \<Rightarrow> 'a list" where
  "frame_columns key_lists = fast_unique (concat key_lists)"

text \<open>The values of a column that are there (\<open>dropna\<close>).\<close>

definition present :: "cell list \<Rightarrow> real list" where
  "present cs = concat (map (\<lambda>c. case c of None \<Rightarrow> [] | Some v \<Rightarrow> [v]) cs)"

text \<open>
  \<open>mean\<close>, \<open>max\<close> and \<open>min\<close> skip missing cells (\<open>skipna=True\<close>) and are NaN when no
  cell is left.
\<close>

definition pd_mean :: "cell list \<Rightarrow> cell" where
  "pd_mean cs =
     (let vs = present cs
      in if vs = [] then None else Some (sum_list vs / real (length vs)))"

definition pd_max :: "cell list \<Rightarrow> cell" where
  "pd_max cs = (case present cs of [] \<Rightarrow> None | v # vs \<Rightarrow> Some (fold max vs v))"

definition pd_min :: "cell list \<Rightarrow> cell" where
  "pd_min cs = (case present cs of [] \<Rightarrow> None | v # vs \<Rightarrow> Some (fold min vs v))"

text \<open>Arithmetic on cells: NaN in, NaN out.\<close>

definition pd_add :: "cell \<Rightarrow> cell \<Rightarrow> cell" where
  "pd_add a b = (case (a, b) of (Some x, Some y) \<Rightarrow> Some (x + y) | _ \<Rightarrow> None)"

definition pd_mul :: "cell \<Rightarrow> real \<Rightarrow> cell" where
  "pd_mul a w = (case a of Some x \<Rightarrow> Some (x * w) | None \<Rightarrow> None)"

definition pd_sub :: "cell \<Rightarrow> cell \<Rightarrow> cell" where
  "pd_sub a b = (case (a, b) of (Some x, Some y) \<Rightarrow> Some (x - y) | _ \<Rightarrow> None)"

text \<open>
  Division of a column by a scalar is float division and raises nothing. A zero divisor
  with a zero dividend gives NaN. A zero divisor with another dividend would give an
  infinity, which \<open>cell\<close> does not hold: the only division of the program is the one of
  the min-max scaling, whose dividend is zero whenever its divisor is (lemma
  \<open>norm_dividend_zero\<close> below), so that case is never computed.
\<close>

definition pd_div :: "cell \<Rightarrow> cell \<Rightarrow> cell" where
  "pd_div a b =
     (case (a, b) of
        (Some x, Some y) \<Rightarrow> if y = 0 then None else Some (x / y)
      | _ \<Rightarrow> None)"

text \<open>
  \<open>sort_values(by=..., ascending=False)\<close> sorts with the library's default sorting kind,
  \<open>quicksort\<close>, and the default \<open>na_position='last'\<close>. The index computation is pandas'
  \<open>nargsort\<close>: the positions of the NaN cells are set aside in their own order, the
  other cells are reversed, sorted ascending by numpy's \<open>argsort\<close>, reversed again, and
  the NaN positions are appended.

  numpy's \<open>argsort\<close> is a parameter \<open>srt\<close> of the model. Its contract \<open>argsort_ok\<close> is
  what numpy documents for every sorting kind: the result is a permutation of the
  positions that lists the values in ascending order. The default kind is documented as
  not stable and its routine differs between builds and processors, so the contract
  does not fix the order of equal values, and nothing proved below depends on it.
\<close>

type_synonym argsort = "real list \<Rightarrow> nat list"

definition argsort_ok :: "argsort \<Rightarrow> bool" where
  "argsort_ok srt \<longleftrightarrow>
     (\<forall>xs. mset (srt xs) = mset [0..<length xs] \<and> sorted (map (\<lambda>j. xs ! j) (srt xs)))"

definition nargsort :: "argsort \<Rightarrow> cell list \<Rightarrow> nat list" where
  "nargsort srt items =
     (let idx = [0..<length items];
          non_nan_idx = rev (filter (\<lambda>i. items ! i \<noteq> None) idx);
          non_nans = map (\<lambda>i. the (items ! i)) non_nan_idx;
          nan_idx = filter (\<lambda>i. items ! i = None) idx;
          indexer = rev (map (\<lambda>j. non_nan_idx ! j) (srt non_nans))
      in indexer @ nan_idx)"

definition sort_values :: "argsort \<Rightarrow> ('r \<Rightarrow> cell) \<Rightarrow> 'r list \<Rightarrow> 'r list" where
  "sort_values srt by df = map (\<lambda>i. df ! i) (nargsort srt (map by df))"

definition head :: "nat \<Rightarrow> 'r list \<Rightarrow> 'r list" where
  "head n df = take n df"

text \<open>
  A sorting routine that meets the contract (lemma \<open>stable_argsort_ok\<close>): insertion
  sort on the pairs of value and position. The examples are evaluated with it; where an
  example has two equal numeric scores, what is stated of it does not depend on their
  order.
\<close>

definition stable_argsort :: argsort where
  "stable_argsort xs = map snd (sort_key fst (zip xs [0..<length xs]))"

subsection \<open>The candidate table of the ranking page\<close>

text \<open>
  \<open>show_ranking_module\<close>, lines 171 to 191. A row is the dictionary \<open>data_dict\<close>: the
  four fixed keys and one key per score of the candidate. The fixed keys are fields of
  the record and the score keys an insertion-ordered dictionary; metric names are taken
  to differ from the four fixed keys, as the names of the registry do. Candidates
  without a score get no row.
\<close>

record rank_row =
  r_id :: nat
  r_name :: string
  r_position :: string
  r_experience :: nat
  r_scores :: "(string \<times> real) list"

definition score_dict :: "score list \<Rightarrow> (string \<times> real) list" where
  "score_dict scores = fold (\<lambda>s d. dict_set (metric s) (svalue s) d) scores []"

fun candidate_data :: "repo \<Rightarrow> candidate list \<Rightarrow> rank_row list" where
  "candidate_data rp [] = []"
| "candidate_data rp (cand # cands) =
     (let scores = get_scores_for_candidate rp (cand_id cand)
      in if scores \<noteq> []
         then \<lparr>r_id = cand_id cand, r_name = cand_name cand,
               r_position = (case cand_position cand of None \<Rightarrow> ''N/A'' | Some p \<Rightarrow> p),
               r_experience = (case cand_experience cand of None \<Rightarrow> 0 | Some y \<Rightarrow> y),
               r_scores = score_dict scores\<rparr> # candidate_data rp cands
         else candidate_data rp cands)"

definition reserved_columns :: "string list" where
  "reserved_columns = [''id'', ''name'', ''position'', ''experience'']"

definition df_columns :: "rank_row list \<Rightarrow> string list" where
  "df_columns df = frame_columns (map (\<lambda>r. reserved_columns @ dict_keys (r_scores r)) df)"

definition df_metrics :: "rank_row list \<Rightarrow> string list" where
  "df_metrics df = filter (\<lambda>col. col \<notin> set reserved_columns) (df_columns df)"

text \<open>The cell of a row in a metric column: NaN where the row's dictionary has no such key.\<close>

definition cell_of :: "rank_row \<Rightarrow> string \<Rightarrow> cell" where
  "cell_of r m = dict_get (r_scores r) m"

subsection \<open>The three ranking methods\<close>

datatype ranking_method = Single_Metric | Weighted_Average | Composite_Score

record config =
  ranking_metric :: string
  top_n :: nat
  cfg_normalize :: bool
  weight_method :: ranking_method
  weights :: "(string \<times> real) list"

definition weights_get :: "(string \<times> real) list \<Rightarrow> string \<Rightarrow> real" where
  "weights_get w m = (case dict_get w m of None \<Rightarrow> 1 | Some x \<Rightarrow> x)"

text \<open>
  Line 226: \<open>sum(df[metric] * weights.get(metric, 1.0) for metric in metrics)\<close>. Python's
  \<open>sum\<close> starts from 0 and adds the columns one by one with \<open>+\<close>.
\<close>

definition weighted_score :: "(string \<times> real) list \<Rightarrow> string list \<Rightarrow> rank_row \<Rightarrow> cell" where
  "weighted_score w metrics r =
     fold (\<lambda>m acc. pd_add acc (pd_mul (cell_of r m) (weights_get w m))) metrics (Some 0)"

text \<open>Line 234: \<open>(df[metric] - df[metric].min()) / (df[metric].max() - df[metric].min())\<close>.\<close>

definition norm_cell :: "rank_row list \<Rightarrow> string \<Rightarrow> rank_row \<Rightarrow> cell" where
  "norm_cell df m r =
     (let col = map (\<lambda>r'. cell_of r' m) df
      in pd_div (pd_sub (cell_of r m) (pd_min col)) (pd_sub (pd_max col) (pd_min col)))"

text \<open>Lines 232 to 239: the cells of \<open>composite_cols\<close> in a row, and their mean along the row.\<close>

definition composite_cells :: "bool \<Rightarrow> rank_row list \<Rightarrow> string list \<Rightarrow> rank_row \<Rightarrow> cell list" where
  "composite_cells normalized df metrics r =
     (if normalized then map (\<lambda>m. norm_cell df m r) metrics else map (\<lambda>m. cell_of r m) metrics)"

definition composite_score :: "bool \<Rightarrow> rank_row list \<Rightarrow> string list \<Rightarrow> rank_row \<Rightarrow> cell" where
  "composite_score normalized df metrics r = pd_mean (composite_cells normalized df metrics r)"

text \<open>The column each method sorts by.\<close>

definition score_column :: "config \<Rightarrow> rank_row list \<Rightarrow> rank_row \<Rightarrow> cell" where
  "score_column cfg df r =
     (case weight_method cfg of
        Single_Metric \<Rightarrow> cell_of r (ranking_metric cfg)
      | Weighted_Average \<Rightarrow> weighted_score (weights cfg) (df_metrics df) r
      | Composite_Score \<Rightarrow> composite_score (cfg_normalize cfg) df (df_metrics df) r)"

text \<open>
  \<open>df.sort_values(by=..., ascending=False).head(top_n)\<close>: as positions of the input
  table, and as rows.
\<close>

definition ranked_index :: "argsort \<Rightarrow> config \<Rightarrow> rank_row list \<Rightarrow> nat list" where
  "ranked_index srt cfg df = take (top_n cfg) (nargsort srt (map (score_column cfg df) df))"

definition df_ranked :: "argsort \<Rightarrow> config \<Rightarrow> rank_row list \<Rightarrow> rank_row list" where
  "df_ranked srt cfg df = head (top_n cfg) (sort_values srt (score_column cfg df) df)"

text \<open>
  \<open>df_ranked['rank'] = range(1, len(df_ranked) + 1)\<close> and the projection to the columns
  shown: rank, name, the score column and, but for Single Metric, the metric columns.
\<close>

record ranked =
  rank_no :: nat
  name :: string
  score_col :: cell
  metric_cells :: "cell list"

definition ranked_table :: "(rank_row \<Rightarrow> cell) \<Rightarrow> string list \<Rightarrow> rank_row list \<Rightarrow> ranked list" where
  "ranked_table sc cols rows =
     map (\<lambda>(k, r). \<lparr>rank_no = k, name = r_name r, score_col = sc r,
                     metric_cells = map (\<lambda>m. cell_of r m) cols\<rparr>)
       (zip [1..<length rows + 1] rows)"

text \<open>
  Lines 219 to 242. \<open>sort_values\<close> raises KeyError for a name that is no column. The
  select box offers the metric columns only, and the model does not represent a sort by
  one of the four fixed columns: every name outside \<open>metrics\<close> is the KeyError branch.
\<close>

definition ranking :: "argsort \<Rightarrow> config \<Rightarrow> rank_row list \<Rightarrow> error + ranked list" where
  "ranking srt cfg df =
     (case weight_method cfg of
        Single_Metric \<Rightarrow>
          if ranking_metric cfg \<in> set (df_metrics df)
          then Inr (ranked_table (score_column cfg df) [] (df_ranked srt cfg df))
          else Inl (KeyError (ranking_metric cfg))
      | Weighted_Average \<Rightarrow>
          Inr (ranked_table (score_column cfg df) (df_metrics df) (df_ranked srt cfg df))
      | Composite_Score \<Rightarrow>
          Inr (ranked_table (score_column cfg df) (df_metrics df) (df_ranked srt cfg df)))"

subsection \<open>The pages\<close>

datatype 'a page = Info string | Shown 'a

definition session_label :: "session \<Rightarrow> string" where
  "session_label s =
     sess_name s @ '' ('' @ (case sess_date s of None \<Rightarrow> ''N/A'' | Some d \<Rightarrow> d) @ '')''"

definition session_options :: "session list \<Rightarrow> (string \<times> nat) list" where
  "session_options sessions = fold (\<lambda>s d. dict_set (session_label s) (sess_id s) d) sessions []"

text \<open>
  \<open>show_ranking_module\<close>, lines 153 to 246, up to the table it displays. The session
  picked in the select box and the ranking configuration are inputs.
\<close>

definition show_ranking_module ::
    "argsort \<Rightarrow> repo \<Rightarrow> string \<Rightarrow> config \<Rightarrow> error + ranked list page" where
  "show_ranking_module srt rp selected_session cfg =
     (if list_sessions rp = [] then Inr (Info ''No sessions available.'')
      else case dict_item (session_options (list_sessions rp)) selected_session of
        Inl e \<Rightarrow> Inl e
      | Inr session_id \<Rightarrow>
          (let candidates = list_candidates rp session_id
           in if candidates = [] then Inr (Info ''No candidates in this session.'')
              else let df = candidate_data rp candidates
                   in if df = [] then Inr (Info ''No scores recorded. Score candidates first.'')
                      else if df_metrics df = [] then Inr (Info ''No metrics available.'')
                      else (case ranking srt cfg df of
                              Inl e \<Rightarrow> Inl e
                            | Inr table \<Rightarrow> Inr (Shown table))))"

text \<open>
  \<open>show_analytics_dashboard\<close>, lines 80 to 135. A row of \<open>all_scores\<close> is the dictionary
  of the candidate's scores with the key \<open>candidate_name\<close> added last.
\<close>

record score_row =
  sr_scores :: "(string \<times> real) list"
  sr_candidate_name :: string

fun all_scores :: "repo \<Rightarrow> candidate list \<Rightarrow> score_row list" where
  "all_scores rp [] = []"
| "all_scores rp (cand # cands) =
     (let scores = get_scores_for_candidate rp (cand_id cand)
      in if scores \<noteq> []
         then \<lparr>sr_scores = score_dict scores, sr_candidate_name = cand_name cand\<rparr>
                # all_scores rp cands
         else all_scores rp cands)"

text \<open>The columns of \<open>df_scores.drop('candidate_name', axis=1)\<close> and their cells.\<close>

definition score_columns :: "score_row list \<Rightarrow> string list" where
  "score_columns df_scores =
     filter (\<lambda>col. col \<noteq> ''candidate_name'')
       (frame_columns (map (\<lambda>r. dict_keys (sr_scores r) @ [''candidate_name'']) df_scores))"

definition score_column_cells :: "score_row list \<Rightarrow> string \<Rightarrow> cell list" where
  "score_column_cells df_scores m = map (\<lambda>r. dict_get (sr_scores r) m) df_scores"

text \<open>Lines 126 and 134: \<open>.mean().mean()\<close> and \<open>.max().max()\<close>, column by column, then
  over the per-column results.\<close>

definition avg_total :: "score_row list \<Rightarrow> cell" where
  "avg_total df_scores =
     pd_mean (map (\<lambda>m. pd_mean (score_column_cells df_scores m)) (score_columns df_scores))"

definition top_score :: "score_row list \<Rightarrow> cell" where
  "top_score df_scores =
     pd_max (map (\<lambda>m. pd_max (score_column_cells df_scores m)) (score_columns df_scores))"

record key_metrics =
  total_candidates :: nat
  average_score :: cell
  evaluated :: nat
  highest_score :: cell

definition show_analytics_dashboard :: "repo \<Rightarrow> string \<Rightarrow> error + key_metrics page" where
  "show_analytics_dashboard rp selected_session =
     (if list_sessions rp = []
      then Inr (Info ''No sessions available. Create an interview session first.'')
      else case dict_item (session_options (list_sessions rp)) selected_session of
        Inl e \<Rightarrow> Inl e
      | Inr session_id \<Rightarrow>
          (let candidates = list_candidates rp session_id
           in if candidates = [] then Inr (Info ''No candidates in this session yet.'')
              else let df_scores = all_scores rp candidates
                   in if df_scores = []
                      then Inr (Info ''No scores recorded yet. Start evaluating candidates.'')
                      else Inr (Shown
                        \<lparr>total_candidates = length candidates,
                         average_score = (if length df_scores > 0 then avg_total df_scores else Some 0),
                         evaluated = length (filter (\<lambda>c. get_scores_for_candidate rp (cand_id c) \<noteq> []) candidates),
                         highest_score = (if length df_scores > 0 then top_score df_scores else Some 0)\<rparr>)))"

text \<open>
  \<open>show_data_management\<close>, lines 354 to 381: one export row per candidate. A candidate
  with scores gets a key per score; a candidate without gets every metric of the
  registry with the value \<open>None\<close>. A cell of the export table is the value under the
  column's key, and missing (\<open>None\<close>) where the row has no such key or the key holds
  \<open>None\<close>; \<open>to_csv\<close>, which is not modelled, writes a missing cell as its \<open>na_rep\<close>,
  the empty string by default.
\<close>

record export_row =
  e_name :: string
  e_email :: string
  e_position :: string
  e_experience :: nat
  e_cells :: "(string \<times> cell) list"

definition export_row_of :: "string list \<Rightarrow> repo \<Rightarrow> candidate \<Rightarrow> export_row" where
  "export_row_of registry rp cand =
     (let scores = get_scores_for_candidate rp (cand_id cand)
      in \<lparr>e_name = cand_name cand,
          e_email = (case cand_email cand of None \<Rightarrow> [] | Some e \<Rightarrow> e),
          e_position = (case cand_position cand of None \<Rightarrow> [] | Some p \<Rightarrow> p),
          e_experience = (case cand_experience cand of None \<Rightarrow> 0 | Some y \<Rightarrow> y),
          e_cells = (if scores \<noteq> []
                     then fold (\<lambda>s row. dict_set (metric s) (Some (svalue s)) row) scores []
                     else fold (\<lambda>m row. dict_set m None row) registry [])\<rparr>)"

definition export_data :: "string list \<Rightarrow> repo \<Rightarrow> candidate list \<Rightarrow> export_row list" where
  "export_data registry rp candidates = map (export_row_of registry rp) candidates"

definition export_fixed_columns :: "string list" where
  "export_fixed_columns = [''Candidate Name'', ''Email'', ''Position'', ''Experience (Years)'']"

definition export_columns :: "export_row list \<Rightarrow> string list" where
  "export_columns rows =
     frame_columns (map (\<lambda>r. export_fixed_columns @ dict_keys (e_cells r)) rows)"

definition export_metric_columns :: "export_row list \<Rightarrow> string list" where
  "export_metric_columns rows =
     filter (\<lambda>col. col \<notin> set export_fixed_columns) (export_columns rows)"

definition export_cell :: "export_row \<Rightarrow> string \<Rightarrow> cell" where
  "export_cell r col = (case dict_get (e_cells r) col of None \<Rightarrow> None | Some c \<Rightarrow> c)"


subsection \<open>The parts of the index computation\<close>

text \<open>The local values of \<open>nargsort\<close>, named for the proofs.\<close>

definition non_nan_idx :: "cell list \<Rightarrow> nat list" where
  "non_nan_idx items = rev (filter (\<lambda>i. items ! i \<noteq> None) [0..<length items])"

definition nan_idx :: "cell list \<Rightarrow> nat list" where
  "nan_idx items = filter (\<lambda>i. items ! i = None) [0..<length items]"

definition non_nans :: "cell list \<Rightarrow> real list" where
  "non_nans items = map (\<lambda>i. the (items ! i)) (non_nan_idx items)"

definition sorted_scores :: "argsort \<Rightarrow> cell list \<Rightarrow> real list" where
  "sorted_scores srt items = rev (map (\<lambda>j. non_nans items ! j) (srt (non_nans items)))"

subsection \<open>The selected session\<close>

text \<open>
  The candidates of the session picked in the select box: what \<open>list_candidates\<close>
  returns for the identifier the label stands for.
\<close>

definition selected_candidates :: "repo \<Rightarrow> string \<Rightarrow> candidate list" where
  "selected_candidates rp selected_session =
     (case dict_get (session_options (list_sessions rp)) selected_session of
        None \<Rightarrow> []
      | Some session_id \<Rightarrow> list_candidates rp session_id)"

subsection \<open>The order in which metric names are observed\<close>

text \<open>
  The metric names as the pages meet them when they build their tables: the candidates
  in listing order, the scores of each candidate in the order the repository returns
  them. In the export a candidate without scores brings the names of the registry.
\<close>

definition observed_metrics :: "repo \<Rightarrow> candidate list \<Rightarrow> string list" where
  "observed_metrics rp cands =
     concat (map (\<lambda>c. map metric (get_scores_for_candidate rp (cand_id c))) cands)"

definition export_observed :: "string list \<Rightarrow> repo \<Rightarrow> candidate list \<Rightarrow> string list" where
  "export_observed registry rp cands =
     concat (map (\<lambda>c. if get_scores_for_candidate rp (cand_id c) \<noteq> []
                      then map metric (get_scores_for_candidate rp (cand_id c))
                      else registry) cands)"

text \<open>The position at which a value first occurs in a list.\<close>

definition first_position :: "'a list \<Rightarrow> 'a \<Rightarrow> nat" where
  "first_position xs a = length (takeWhile (\<lambda>x. x \<noteq> a) xs)"

subsection \<open>What the specification says, for comparison\<close>

text \<open>
  The definitions of this subsection follow the words of the specification, not the
  source; each is compared with the source's definition in the section of its claim.
\<close>

text \<open>Weighted Average: the sum over the metrics of weight times (value if present else 0).\<close>

definition spec_weighted_score :: "(string \<times> real) list \<Rightarrow> string list \<Rightarrow> rank_row \<Rightarrow> real" where
  "spec_weighted_score w metrics r =
     (\<Sum>m\<leftarrow>metrics. weights_get w m * (case cell_of r m of Some v \<Rightarrow> v | None \<Rightarrow> 0))"

text \<open>
  A score column sorted non-increasing: each score is at least every later one. A
  comparison with NaN is false, as it is for floats.
\<close>

definition nonincreasing :: "cell list \<Rightarrow> bool" where
  "nonincreasing cs =
     sorted_wrt (\<lambda>a b. case a of None \<Rightarrow> False
                       | Some x \<Rightarrow> (case b of None \<Rightarrow> False | Some y \<Rightarrow> y \<le> x)) cs"

text \<open>
  The rankable candidates: for Single Metric a candidate without a score for the chosen
  metric cannot be ranked by it; for the other two methods every candidate of the table
  is rankable.
\<close>

definition spec_rankable :: "config \<Rightarrow> rank_row \<Rightarrow> bool" where
  "spec_rankable cfg r =
     (case weight_method cfg of
        Single_Metric \<Rightarrow> cell_of r (ranking_metric cfg) \<noteq> None
      | Weighted_Average \<Rightarrow> True
      | Composite_Score \<Rightarrow> True)"

text \<open>The metric columns a candidate has values for.\<close>

definition own_columns :: "string list \<Rightarrow> rank_row \<Rightarrow> string list" where
  "own_columns metrics r = filter (\<lambda>m. cell_of r m \<noteq> None) metrics"

text \<open>
  Composite Score as specified: the min-max scaled value is 0.0 where the column's
  maximum equals its minimum, and the score is the mean over the candidate's own columns.
\<close>

definition spec_norm :: "rank_row list \<Rightarrow> string \<Rightarrow> real \<Rightarrow> real" where
  "spec_norm df m v =
     (let vs = present (map (\<lambda>r. cell_of r m) df)
      in if vs = [] \<or> Max (set vs) = Min (set vs) then 0
         else (v - Min (set vs)) / (Max (set vs) - Min (set vs)))"

definition spec_composite :: "bool \<Rightarrow> rank_row list \<Rightarrow> string list \<Rightarrow> rank_row \<Rightarrow> cell" where
  "spec_composite normalized df metrics r =
     (let vs = map (\<lambda>m. if normalized then spec_norm df m (the (cell_of r m))
                          else the (cell_of r m)) (own_columns metrics r)
      in if vs = [] then None else Some (sum_list vs / real (length vs)))"

text \<open>All present values of the score table, and their arithmetic mean.\<close>

definition table_values :: "score_row list \<Rightarrow> real list" where
  "table_values df_scores =
     concat (map (\<lambda>m. present (score_column_cells df_scores m)) (score_columns df_scores))"

definition spec_mean :: "score_row list \<Rightarrow> real" where
  "spec_mean df_scores = sum_list (table_values df_scores) / real (length (table_values df_scores))"

text \<open>The observed metrics in the order of the registry.\<close>

definition registry_order :: "string list \<Rightarrow> string list \<Rightarrow> string list" where
  "registry_order registry observed = filter (\<lambda>m. m \<in> set observed) registry"

subsection \<open>Example data\<close>

text \<open>
  The candidates of the specification's examples: A, B, C with both metrics, D without a
  Communication score; and E, without a Technical score.
\<close>

definition example_row :: "nat \<Rightarrow> string \<Rightarrow> (string \<times> real) list \<Rightarrow> rank_row" where
  "example_row i n d =
     \<lparr>r_id = i, r_name = n, r_position = ''N/A'', r_experience = 0, r_scores = d\<rparr>"

definition row_A :: rank_row where
  "row_A = example_row 1 ''A'' [(''Technical'', 8), (''Communication'', 6)]"

definition row_B :: rank_row where
  "row_B = example_row 2 ''B'' [(''Technical'', 8), (''Communication'', 9)]"

definition row_C :: rank_row where
  "row_C = example_row 3 ''C'' [(''Technical'', 5), (''Communication'', 7)]"

definition row_D :: rank_row where
  "row_D = example_row 4 ''D'' [(''Technical'', 9)]"

definition row_E :: rank_row where
  "row_E = example_row 5 ''E'' [(''Communication'', 4)]"

definition example_config :: "ranking_method \<Rightarrow> nat \<Rightarrow> config" where
  "example_config wm n =
     \<lparr>ranking_metric = ''Technical'', top_n = n, cfg_normalize = True, weight_method = wm,
      weights = [(''Technical'', 1), (''Communication'', 1 / 2)]\<rparr>"

text \<open>
  A repository with six sessions: Spring has A, D and a candidate F without scores;
  Summer has no candidate; Autumn has only F; Winter has a candidate Z whose scores are
  all zero; Review has E and B; Panel has A, B and C.
\<close>

definition example_candidate :: "nat \<Rightarrow> string \<Rightarrow> candidate" where
  "example_candidate i n =
     \<lparr>cand_id = i, cand_name = n, cand_email = None, cand_position = None,
      cand_experience = None\<rparr>"

definition example_score :: "string \<Rightarrow> real \<Rightarrow> score" where
  "example_score m v = \<lparr>metric = m, svalue = v\<rparr>"

definition example_repo :: repo where
  "example_repo =
     \<lparr>list_sessions =
        [\<lparr>sess_id = 1, sess_name = ''Spring'', sess_date = Some ''2024-03-01''\<rparr>,
         \<lparr>sess_id = 2, sess_name = ''Summer'', sess_date = None\<rparr>,
         \<lparr>sess_id = 3, sess_name = ''Autumn'', sess_date = None\<rparr>,
         \<lparr>sess_id = 4, sess_name = ''Winter'', sess_date = None\<rparr>,
         \<lparr>sess_id = 5, sess_name = ''Review'', sess_date = None\<rparr>,
         \<lparr>sess_id = 6, sess_name = ''Panel'', sess_date = None\<rparr>],
      list_candidates = (\<lambda>session_id.
        if session_id = 1
        then [example_candidate 1 ''A'', example_candidate 4 ''D'', example_candidate 6 ''F'']
        else if session_id = 3 then [example_candidate 6 ''F'']
        else if session_id = 4 then [example_candidate 7 ''Z'']
        else if session_id = 5 then [example_candidate 5 ''E'', example_candidate 2 ''B'']
        else if session_id = 6
        then [example_candidate 1 ''A'', example_candidate 2 ''B'', example_candidate 3 ''C'']
        else []),
      get_scores_for_candidate = (\<lambda>candidate_id.
        if candidate_id = 1
        then [example_score ''Technical'' 8, example_score ''Communication'' 6]
        else if candidate_id = 2
        then [example_score ''Technical'' 8, example_score ''Communication'' 9]
        else if candidate_id = 3
        then [example_score ''Technical'' 5, example_score ''Communication'' 7]
        else if candidate_id = 4 then [example_score ''Technical'' 9]
        else if candidate_id = 5 then [example_score ''Communication'' 4]
        else if candidate_id = 7
        then [example_score ''Technical'' 0, example_score ''Communication'' 0]
        else [])\<rparr>"

definition example_registry :: "string list" where
  "example_registry = [''Technical'', ''Communication'']"

section \<open>Sorting: what holds for every sorting routine that meets the contract\<close>

lemma argsort_ok_mset: "argsort_ok srt \<Longrightarrow> mset (srt xs) = mset [0..<length xs]"
  by (simp add: argsort_ok_def)

lemma argsort_ok_sorted: "argsort_ok srt \<Longrightarrow> sorted (map (\<lambda>j. xs ! j) (srt xs))"
  by (simp add: argsort_ok_def)

lemma argsort_ok_set: "argsort_ok srt \<Longrightarrow> set (srt xs) = {0..<length xs}"
  using argsort_ok_mset [of srt xs] by (metis mset_eq_setD set_upt)

lemma map_nth_perm:
  assumes "mset js = mset [0..<length xs]"
  shows "mset (map (\<lambda>j. xs ! j) js) = mset xs"
proof -
  have "mset (map (\<lambda>j. xs ! j) js) = image_mset (\<lambda>j. xs ! j) (mset js)" by simp
  also have "\<dots> = image_mset (\<lambda>j. xs ! j) (mset [0..<length xs])" using assms by simp
  also have "\<dots> = mset (map (\<lambda>j. xs ! j) [0..<length xs])" by simp
  also have "\<dots> = mset xs" by (simp add: map_nth)
  finally show ?thesis .
qed

lemma filter_nth_upt: "map (\<lambda>i. xs ! i) (filter (\<lambda>i. P (xs ! i)) [0..<length xs]) = filter P xs"
proof -
  have "filter P xs = filter P (map (\<lambda>i. xs ! i) [0..<length xs])" by (simp add: map_nth)
  also have "\<dots> = map (\<lambda>i. xs ! i) (filter (\<lambda>i. P (xs ! i)) [0..<length xs])"
    by (simp add: filter_map comp_def)
  finally show ?thesis by simp
qed

lemma mset_filter_both: "mset (filter P xs) + mset (filter (\<lambda>x. \<not> P x) xs) = mset xs"
  by (induction xs) auto

lemma nargsort_parts:
  "nargsort srt items =
     rev (map (\<lambda>j. non_nan_idx items ! j) (srt (non_nans items))) @ nan_idx items"
  by (simp add: nargsort_def Let_def non_nan_idx_def nan_idx_def non_nans_def)

lemma length_non_nans: "length (non_nans items) = length (non_nan_idx items)"
  by (simp add: non_nans_def)

lemma mset_nargsort:
  assumes "argsort_ok srt"
  shows "mset (nargsort srt items) = mset [0..<length items]"
proof -
  have "mset (srt (non_nans items)) = mset [0..<length (non_nan_idx items)]"
    using argsort_ok_mset [OF assms, of "non_nans items"] by (simp add: length_non_nans)
  then have "mset (map (\<lambda>j. non_nan_idx items ! j) (srt (non_nans items))) = mset (non_nan_idx items)"
    by (rule map_nth_perm)
  then have "mset (nargsort srt items) = mset (non_nan_idx items) + mset (nan_idx items)"
    by (simp add: nargsort_parts)
  also have "\<dots> = mset [0..<length items]"
    using mset_filter_both [of "\<lambda>i. items ! i \<noteq> None" "[0..<length items]"]
    unfolding non_nan_idx_def nan_idx_def mset_rev by (simp only: not_not)
  finally show ?thesis .
qed

lemma set_nargsort: "argsort_ok srt \<Longrightarrow> set (nargsort srt items) = {0..<length items}"
  using mset_nargsort [of srt items] by (metis mset_eq_setD set_upt)

lemma length_nargsort: "argsort_ok srt \<Longrightarrow> length (nargsort srt items) = length items"
  using mset_nargsort [of srt items] by (metis mset_eq_length length_upt diff_zero)

lemma non_nan_idx_Some: "i \<in> set (non_nan_idx items) \<Longrightarrow> items ! i = Some (the (items ! i))"
  by (auto simp: non_nan_idx_def)

lemma nan_idx_None: "i \<in> set (nan_idx items) \<Longrightarrow> items ! i = None"
  by (simp add: nan_idx_def)

lemma sorted_scores_desc:
  assumes "argsort_ok srt"
  shows "sorted_wrt (\<lambda>x y. y \<le> x) (sorted_scores srt items)"
  using argsort_ok_sorted [OF assms, of "non_nans items"]
  by (simp add: sorted_scores_def sorted_wrt_rev)

lemma cells_nargsort:
  assumes "argsort_ok srt"
  shows "map (\<lambda>i. items ! i) (nargsort srt items) =
           map Some (sorted_scores srt items) @ replicate (length (nan_idx items)) None"
proof -
  have in_range: "j < length (non_nan_idx items)" if "j \<in> set (srt (non_nans items))" for j
    using that argsort_ok_set [OF assms, of "non_nans items"] by (simp add: length_non_nans)
  have "items ! (non_nan_idx items ! j) = Some (non_nans items ! j)"
    if "j \<in> set (srt (non_nans items))" for j
  proof -
    have j: "j < length (non_nan_idx items)" using that by (rule in_range)
    then have "non_nan_idx items ! j \<in> set (non_nan_idx items)" by simp
    then have "items ! (non_nan_idx items ! j) = Some (the (items ! (non_nan_idx items ! j)))"
      by (rule non_nan_idx_Some)
    moreover have "non_nans items ! j = the (items ! (non_nan_idx items ! j))"
      using j by (simp add: non_nans_def)
    ultimately show ?thesis by simp
  qed
  then have first: "map (\<lambda>j. items ! (non_nan_idx items ! j)) (srt (non_nans items)) =
                    map (\<lambda>j. Some (non_nans items ! j)) (srt (non_nans items))"
    by simp
  have "map (\<lambda>i. items ! i) (nan_idx items) = map (\<lambda>i. None) (nan_idx items)"
    by (rule map_cong) (simp_all add: nan_idx_None)
  then have second: "map (\<lambda>i. items ! i) (nan_idx items) = replicate (length (nan_idx items)) None"
    by (simp only: map_replicate_const)
  have "map (\<lambda>i. items ! i) (rev (map (\<lambda>j. non_nan_idx items ! j) (srt (non_nans items)))) =
        rev (map (\<lambda>j. items ! (non_nan_idx items ! j)) (srt (non_nans items)))"
    by (simp add: rev_map comp_def)
  also have "\<dots> = map Some (sorted_scores srt items)"
    by (simp add: first sorted_scores_def rev_map comp_def)
  finally show ?thesis by (simp add: nargsort_parts second)
qed

lemma length_present: "length (present cs) = length (filter (\<lambda>c. c \<noteq> None) cs)"
  by (induction cs) (auto simp: present_def split: option.splits)

lemma length_filter_nth_upt:
  "length (filter (\<lambda>i. P (xs ! i)) [0..<length xs]) = length (filter P xs)"
  using arg_cong [OF filter_nth_upt [of xs P], of length] by simp

lemma length_sorted_scores:
  assumes "argsort_ok srt"
  shows "length (sorted_scores srt items) = length (present items)"
proof -
  have "length (srt (non_nans items)) = length (non_nans items)"
    using argsort_ok_mset [OF assms, of "non_nans items"]
    by (metis mset_eq_length length_upt diff_zero)
  moreover have "length (non_nan_idx items) = length (filter (\<lambda>c. c \<noteq> None) items)"
    unfolding non_nan_idx_def length_rev
    by (rule length_filter_nth_upt [of "\<lambda>c. c \<noteq> None" items])
  ultimately show ?thesis
    by (simp only: sorted_scores_def length_rev length_map length_non_nans length_present)
qed

lemma desc_nan_last_nth:
  assumes "cs = map Some W @ replicate k None" and "sorted_wrt (\<lambda>x y. y \<le> x) W"
    and "p < q" and "q < length cs" and "cs ! q = Some y"
  shows "\<exists>x. cs ! p = Some x \<and> y \<le> x"
proof -
  have q: "q < length W"
  proof (rule ccontr)
    assume "\<not> q < length W"
    then have "cs ! q = None" using assms(1,4) by (simp add: nth_append)
    then show False using assms(5) by simp
  qed
  then have "cs ! q = Some (W ! q)" and "cs ! p = Some (W ! p)"
    using assms(1,3) by (simp_all add: nth_append)
  moreover have "W ! q \<le> W ! p" using sorted_wrt_nth_less [OF assms(2) assms(3) q] .
  ultimately show ?thesis using assms(5) by simp
qed

lemma sort_values_cells:
  assumes "argsort_ok srt"
  shows "map by (sort_values srt by df) =
           map (\<lambda>i. map by df ! i) (nargsort srt (map by df))"
proof -
  have "i < length df" if "i \<in> set (nargsort srt (map by df))" for i
    using that set_nargsort [OF assms, of "map by df"] by simp
  then show ?thesis by (simp add: sort_values_def)
qed

lemma mset_sort_values:
  assumes "argsort_ok srt"
  shows "mset (sort_values srt by df) = mset df"
  unfolding sort_values_def
  using map_nth_perm [of "nargsort srt (map by df)" df] mset_nargsort [OF assms, of "map by df"]
  by simp

lemma length_sort_values: "argsort_ok srt \<Longrightarrow> length (sort_values srt by df) = length df"
  by (simp add: sort_values_def length_nargsort)

lemma sort_values_scores:
  assumes "argsort_ok srt"
  shows "map by (sort_values srt by df) =
           map Some (sorted_scores srt (map by df)) @
           replicate (length (nan_idx (map by df))) None"
  by (simp add: sort_values_cells [OF assms] cells_nargsort [OF assms])

lemma zip_upt_fst: "p \<in> set (zip xs [0..<length xs]) \<Longrightarrow> xs ! snd p = fst p"
  by (auto simp: set_zip)

lemma pair_sort_ok:
  assumes "mset ps = mset (zip xs [0..<length xs])"
  shows "mset (map snd (sort_key fst ps)) = mset [0..<length xs]"
    and "sorted (map (\<lambda>j. xs ! j) (map snd (sort_key fst ps)))"
proof -
  have snd_zip: "map snd (zip xs [0..<length xs]) = [0..<length xs]" by simp
  have "mset (map snd (sort_key fst ps)) = image_mset snd (mset ps)" by simp
  also have "\<dots> = mset (map snd (zip xs [0..<length xs]))" by (simp only: assms mset_map)
  finally show "mset (map snd (sort_key fst ps)) = mset [0..<length xs]" by (simp only: snd_zip)
  have "set (sort_key fst ps) = set (zip xs [0..<length xs])"
    using assms by (metis mset_eq_setD set_sort)
  then have "map (\<lambda>p. xs ! snd p) (sort_key fst ps) = map fst (sort_key fst ps)"
    by (intro map_cong refl) (simp add: zip_upt_fst)
  then show "sorted (map (\<lambda>j. xs ! j) (map snd (sort_key fst ps)))"
    unfolding map_map comp_def by (simp only: sorted_sort_key)
qed

lemma stable_argsort_ok: "argsort_ok stable_argsort"
  unfolding argsort_ok_def stable_argsort_def
  using pair_sort_ok [OF refl] by blast

lemma length_ranked_table: "length (ranked_table sc cols rows) = length rows"
  by (simp add: ranked_table_def del: upt_Suc)

lemma nth_ranked_table:
  assumes "k < length rows"
  shows "ranked_table sc cols rows ! k =
           \<lparr>rank_no = Suc k, name = r_name (rows ! k), score_col = sc (rows ! k),
            metric_cells = map (\<lambda>m. cell_of (rows ! k) m) cols\<rparr>"
  using assms by (simp add: ranked_table_def nth_upt del: upt_Suc)

lemma rank_no_ranked_table:
  "map rank_no (ranked_table sc cols rows) = [1..<length rows + 1]"
  by (rule nth_equalityI) (simp_all add: length_ranked_table nth_ranked_table nth_upt del: upt_Suc)

lemma length_df_ranked:
  "argsort_ok srt \<Longrightarrow> length (df_ranked srt cfg df) = min (top_n cfg) (length df)"
  by (simp add: df_ranked_def head_def length_sort_values min.commute)

lemma df_ranked_index:
  "df_ranked srt cfg df = map (\<lambda>i. df ! i) (ranked_index srt cfg df)"
  by (simp add: df_ranked_def ranked_index_def head_def sort_values_def take_map)

lemma set_ranked_index:
  "argsort_ok srt \<Longrightarrow> set (ranked_index srt cfg df) \<subseteq> {0..<length df}"
  using set_nargsort [of srt "map (score_column cfg df) df"] set_take_subset
  unfolding ranked_index_def by fastforce

lemma set_df_ranked: "argsort_ok srt \<Longrightarrow> set (df_ranked srt cfg df) \<subseteq> set df"
  using set_ranked_index [of srt cfg df] by (auto simp: df_ranked_index)


lemma df_ranked_scores:
  assumes "argsort_ok srt"
  shows "map (score_column cfg df) (df_ranked srt cfg df) =
           take (top_n cfg)
             (map Some (sorted_scores srt (map (score_column cfg df) df)) @
              replicate (length (nan_idx (map (score_column cfg df) df))) None)"
  by (simp add: df_ranked_def head_def take_map [symmetric] sort_values_scores [OF assms])

lemma df_ranked_order:
  assumes "argsort_ok srt" and "p < q" and "q < length (df_ranked srt cfg df)"
    and "score_column cfg df (df_ranked srt cfg df ! q) = Some y"
  shows "\<exists>x. score_column cfg df (df_ranked srt cfg df ! p) = Some x \<and> y \<le> x"
proof -
  let ?sc = "score_column cfg df"
  let ?W = "sorted_scores srt (map ?sc df)"
  let ?cs = "map Some ?W @ replicate (length (nan_idx (map ?sc df))) None"
  have len: "length (df_ranked srt cfg df) = length (take (top_n cfg) ?cs)"
    using arg_cong [OF df_ranked_scores [OF assms(1), of cfg df], of length] by simp
  have nth: "?sc (df_ranked srt cfg df ! k) = ?cs ! k" if "k < length (df_ranked srt cfg df)" for k
  proof -
    have "map ?sc (df_ranked srt cfg df) ! k = take (top_n cfg) ?cs ! k"
      by (simp only: df_ranked_scores [OF assms(1)])
    moreover have "map ?sc (df_ranked srt cfg df) ! k = ?sc (df_ranked srt cfg df ! k)"
      using that by (rule nth_map)
    moreover have "k < top_n cfg" using that len by simp
    then have "take (top_n cfg) ?cs ! k = ?cs ! k" by (rule nth_take)
    ultimately show ?thesis by simp
  qed
  have q: "q < length ?cs" using assms(3) len by simp
  have "?cs ! q = Some y" using nth [OF assms(3)] assms(4) by simp
  from desc_nan_last_nth [OF refl sorted_scores_desc [OF assms(1)] assms(2) q this]
  obtain x where "?cs ! p = Some x" and "y \<le> x" by blast
  moreover have "?sc (df_ranked srt cfg df ! p) = ?cs ! p"
    using nth [of p] assms(2,3) by simp
  ultimately show ?thesis by simp
qed

lemma ranking_table:
  assumes "ranking srt cfg df = Inr table"
  shows "\<exists>cols. table = ranked_table (score_column cfg df) cols (df_ranked srt cfg df)"
  using assms by (auto simp: ranking_def split: ranking_method.splits if_splits)

lemma ranking_returns:
  assumes "weight_method cfg = Single_Metric \<longrightarrow> ranking_metric cfg \<in> set (df_metrics df)"
  shows "\<exists>table. ranking srt cfg df = Inr table"
  using assms by (cases "weight_method cfg") (simp_all add: ranking_def)

lemma ranking_postcondition_aux:
  assumes "argsort_ok srt" and "ranking srt cfg df = Inr table"
  shows "length table = min (top_n cfg) (length df)"
    and "map rank_no table = [1..<length table + 1]"
    and "p < q \<Longrightarrow> q < length table \<Longrightarrow> score_col (table ! q) = Some y \<Longrightarrow>
           \<exists>x. score_col (table ! p) = Some x \<and> y \<le> x"
proof -
  from ranking_table [OF assms(2)] obtain cols
    where t: "table = ranked_table (score_column cfg df) cols (df_ranked srt cfg df)" by blast
  show "length table = min (top_n cfg) (length df)"
    by (simp add: t length_ranked_table length_df_ranked [OF assms(1)])
  show "map rank_no table = [1..<length table + 1]"
    by (simp only: t rank_no_ranked_table length_ranked_table)
  assume pq: "p < q" "q < length table" "score_col (table ! q) = Some y"
  have q: "q < length (df_ranked srt cfg df)" using pq(2) by (simp add: t length_ranked_table)
  then have p: "p < length (df_ranked srt cfg df)" using pq(1) by simp
  have "score_column cfg df (df_ranked srt cfg df ! q) = Some y"
    using pq(3) q by (simp add: t nth_ranked_table)
  from df_ranked_order [OF assms(1) pq(1) q this]
  show "\<exists>x. score_col (table ! p) = Some x \<and> y \<le> x"
    using p by (simp add: t nth_ranked_table)
qed

section \<open>Rows with and without a score, after sorting and truncation\<close>

lemma length_sorted_scores_rows:
  assumes "argsort_ok srt"
  shows "length (sorted_scores srt (map sc df)) = length (filter (\<lambda>r. sc r \<noteq> None) df)"
proof -
  have "length (present (map sc df)) = length (filter (\<lambda>c. c \<noteq> None) (map sc df))"
    by (rule length_present)
  also have "\<dots> = length (filter (\<lambda>r. sc r \<noteq> None) df)"
    by (simp only: filter_map comp_def length_map)
  finally show ?thesis by (simp only: length_sorted_scores [OF assms])
qed

lemma df_ranked_nth_score:
  assumes "argsort_ok srt" and "k < length (df_ranked srt cfg df)"
  shows "score_column cfg df (df_ranked srt cfg df ! k) =
           (map Some (sorted_scores srt (map (score_column cfg df) df)) @
            replicate (length (nan_idx (map (score_column cfg df) df))) None) ! k"
proof -
  let ?sc = "score_column cfg df"
  let ?cs = "map Some (sorted_scores srt (map ?sc df)) @
             replicate (length (nan_idx (map ?sc df))) None"
  have "map ?sc (df_ranked srt cfg df) ! k = take (top_n cfg) ?cs ! k"
    by (simp only: df_ranked_scores [OF assms(1)])
  moreover have "map ?sc (df_ranked srt cfg df) ! k = ?sc (df_ranked srt cfg df ! k)"
    using assms(2) by (rule nth_map)
  moreover have "k < top_n cfg" using assms by (simp add: length_df_ranked)
  then have "take (top_n cfg) ?cs ! k = ?cs ! k" by (rule nth_take)
  ultimately show ?thesis by simp
qed

lemma df_ranked_all_scored:
  assumes "argsort_ok srt"
    and "top_n cfg \<le> length (filter (\<lambda>r. score_column cfg df r \<noteq> None) df)"
    and "k < length (df_ranked srt cfg df)"
  shows "score_column cfg df (df_ranked srt cfg df ! k) \<noteq> None"
proof -
  have "k < top_n cfg" using assms(1,3) by (simp add: length_df_ranked)
  then have "k < length (sorted_scores srt (map (score_column cfg df) df))"
    using assms(2) by (simp add: length_sorted_scores_rows [OF assms(1)])
  then show ?thesis
    by (simp add: df_ranked_nth_score [OF assms(1,3)] nth_append)
qed

lemma df_ranked_some_missing:
  assumes "argsort_ok srt"
    and "length (filter (\<lambda>r. score_column cfg df r \<noteq> None) df) < top_n cfg"
    and "length (filter (\<lambda>r. score_column cfg df r \<noteq> None) df) < length df"
  shows "\<exists>k < length (df_ranked srt cfg df). score_column cfg df (df_ranked srt cfg df ! k) = None"
proof -
  let ?sc = "score_column cfg df"
  define n where "n = length (filter (\<lambda>r. ?sc r \<noteq> None) df)"
  have W: "length (sorted_scores srt (map ?sc df)) = n"
    unfolding n_def by (rule length_sorted_scores_rows [OF assms(1)])
  have n: "n < top_n cfg" "n < length df" using assms(2,3) by (simp_all only: n_def)
  have "length (map ?sc (sort_values srt ?sc df)) = length df"
    by (simp add: length_sort_values [OF assms(1)])
  then have total: "n + length (nan_idx (map ?sc df)) = length df"
    by (simp add: sort_values_scores [OF assms(1)] W)
  have k: "n < length (df_ranked srt cfg df)"
    using n by (simp add: length_df_ranked [OF assms(1)])
  have "0 < length (nan_idx (map ?sc df))" using total n by linarith
  then have "?sc (df_ranked srt cfg df ! n) = None"
    by (simp add: df_ranked_nth_score [OF assms(1) k] nth_append W)
  then show ?thesis using k by blast
qed


lemma nth_df_ranked_in_df:
  assumes "argsort_ok srt" and "k < length (df_ranked srt cfg df)"
  shows "df_ranked srt cfg df ! k \<in> set df"
  using set_df_ranked [OF assms(1), of cfg df] nth_mem [OF assms(2)] by blast

section \<open>The weighted sum\<close>

lemma pd_add_None [simp]: "pd_add a None = None" "pd_add None b = None"
  by (simp_all add: pd_add_def split: option.splits)

lemma pd_add_Some [simp]: "pd_add (Some x) (Some y) = Some (x + y)"
  by (simp add: pd_add_def)

lemma pd_mul_simps [simp]: "pd_mul None w = None" "pd_mul (Some x) w = Some (x * w)"
  by (simp_all add: pd_mul_def)

lemma fold_weighted_None:
  "fold (\<lambda>m acc. pd_add acc (pd_mul (cell_of r m) (weights_get w m))) ms None = None"
  by (induction ms) simp_all

lemma fold_weighted_Some:
  "fold (\<lambda>m acc. pd_add acc (pd_mul (cell_of r m) (weights_get w m))) ms (Some a) =
     (if \<forall>m \<in> set ms. cell_of r m \<noteq> None
      then Some (a + spec_weighted_score w ms r) else None)"
proof (induction ms arbitrary: a)
  case Nil
  show ?case by (simp add: spec_weighted_score_def)
next
  case (Cons m ms)
  show ?case
  proof (cases "cell_of r m")
    case None
    then show ?thesis by (simp add: fold_weighted_None)
  next
    case (Some v)
    then show ?thesis
      by (simp add: Cons.IH spec_weighted_score_def algebra_simps)
  qed
qed

lemma weighted_score_cases:
  "weighted_score w ms r =
     (if \<forall>m \<in> set ms. cell_of r m \<noteq> None then Some (spec_weighted_score w ms r) else None)"
  by (simp add: weighted_score_def fold_weighted_Some)



section \<open>Column statistics and the min-max scaling\<close>

lemma set_present: "set (present cs) = {v. Some v \<in> set cs}"
  by (induction cs) (auto simp: present_def split: option.splits)

lemma present_map_filter:
  "present (map f ms) = map (\<lambda>m. the (f m)) (filter (\<lambda>m. f m \<noteq> None) ms)"
  by (induction ms) (auto simp: present_def)

lemma pd_min_Min:
  assumes "present cs \<noteq> []"
  shows "pd_min cs = Some (Min (set (present cs)))"
proof -
  obtain v vs where p: "present cs = v # vs" using assms by (cases "present cs") simp_all
  have "pd_min cs = Some (fold min vs v)" by (simp add: pd_min_def p)
  also have "fold min vs v = Min (set (v # vs))" by (rule Min.set_eq_fold [symmetric])
  finally show ?thesis by (simp only: p)
qed

lemma pd_max_Max:
  assumes "present cs \<noteq> []"
  shows "pd_max cs = Some (Max (set (present cs)))"
proof -
  obtain v vs where p: "present cs = v # vs" using assms by (cases "present cs") simp_all
  have "pd_max cs = Some (fold max vs v)" by (simp add: pd_max_def p)
  also have "fold max vs v = Max (set (v # vs))" by (rule Max.set_eq_fold [symmetric])
  finally show ?thesis by (simp only: p)
qed

lemma pd_min_empty: "present cs = [] \<Longrightarrow> pd_min cs = None"
  by (simp add: pd_min_def)

lemma pd_max_empty: "present cs = [] \<Longrightarrow> pd_max cs = None"
  by (simp add: pd_max_def)

lemma column_bounds:
  assumes "r \<in> set df" and "cell_of r m = Some v"
  shows "present (map (\<lambda>r'. cell_of r' m) df) \<noteq> []"
    and "Min (set (present (map (\<lambda>r'. cell_of r' m) df))) \<le> v"
    and "v \<le> Max (set (present (map (\<lambda>r'. cell_of r' m) df)))"
proof -
  have "Some v \<in> set (map (\<lambda>r'. cell_of r' m) df)"
    using assms by (metis (mono_tags, lifting) image_eqI list.set_map)
  then have v: "v \<in> set (present (map (\<lambda>r'. cell_of r' m) df))"
    by (simp add: set_present)
  then show "present (map (\<lambda>r'. cell_of r' m) df) \<noteq> []" by auto
  show "Min (set (present (map (\<lambda>r'. cell_of r' m) df))) \<le> v"
    using v by (intro Min_le) simp_all
  show "v \<le> Max (set (present (map (\<lambda>r'. cell_of r' m) df)))"
    using v by (intro Max_ge) simp_all
qed

lemma norm_cell_missing: "cell_of r m = None \<Longrightarrow> norm_cell df m r = None"
  by (simp add: norm_cell_def Let_def pd_sub_def pd_div_def)

lemma norm_cell_no_values:
  "present (map (\<lambda>r'. cell_of r' m) df) = [] \<Longrightarrow> norm_cell df m r = None"
  by (simp add: norm_cell_def Let_def pd_min_empty pd_max_empty pd_sub_def pd_div_def
      split: option.splits)

lemma norm_cell_value:
  assumes "cell_of r m = Some v" and "present (map (\<lambda>r'. cell_of r' m) df) \<noteq> []"
  shows "norm_cell df m r =
           (if Max (set (present (map (\<lambda>r'. cell_of r' m) df)))
                 = Min (set (present (map (\<lambda>r'. cell_of r' m) df)))
            then None
            else Some ((v - Min (set (present (map (\<lambda>r'. cell_of r' m) df))))
                       / (Max (set (present (map (\<lambda>r'. cell_of r' m) df)))
                          - Min (set (present (map (\<lambda>r'. cell_of r' m) df))))))"
  using assms by (simp add: norm_cell_def Let_def pd_min_Min pd_max_Max pd_sub_def pd_div_def)

lemma norm_cell_constant:
  assumes "pd_max (map (\<lambda>r'. cell_of r' m) df) = pd_min (map (\<lambda>r'. cell_of r' m) df)"
  shows "norm_cell df m r = None"
proof (cases "present (map (\<lambda>r'. cell_of r' m) df) = []")
  case True
  then show ?thesis by (rule norm_cell_no_values)
next
  case False
  then have "Max (set (present (map (\<lambda>r'. cell_of r' m) df)))
               = Min (set (present (map (\<lambda>r'. cell_of r' m) df)))"
    using assms by (simp add: pd_min_Min pd_max_Max)
  then show ?thesis
    by (cases "cell_of r m") (simp_all add: norm_cell_missing norm_cell_value [OF _ False])
qed

lemma norm_cell_Some_iff:
  "norm_cell df m r \<noteq> None \<longleftrightarrow>
     cell_of r m \<noteq> None
     \<and> pd_max (map (\<lambda>r'. cell_of r' m) df) \<noteq> pd_min (map (\<lambda>r'. cell_of r' m) df)"
proof (cases "present (map (\<lambda>r'. cell_of r' m) df) = []")
  case True
  then show ?thesis by (simp add: norm_cell_no_values pd_min_empty pd_max_empty)
next
  case False
  show ?thesis
  proof (cases "cell_of r m")
    case None
    then show ?thesis by (simp add: norm_cell_missing)
  next
    case (Some v)
    then show ?thesis
      by (simp add: norm_cell_value [OF Some False] pd_min_Min [OF False] pd_max_Max [OF False])
  qed
qed

lemma norm_cell_range:
  assumes "r \<in> set df" and "norm_cell df m r = Some x"
  shows "0 \<le> x \<and> x \<le> 1"
proof -
  let ?vs = "present (map (\<lambda>r'. cell_of r' m) df)"
  obtain v where v: "cell_of r m = Some v"
    using assms(2) norm_cell_missing [of r m df] by (cases "cell_of r m") simp_all
  note b = column_bounds [OF assms(1) v]
  have ne: "Max (set ?vs) \<noteq> Min (set ?vs)"
    and x: "x = (v - Min (set ?vs)) / (Max (set ?vs) - Min (set ?vs))"
    using assms(2) by (simp_all add: norm_cell_value [OF v b(1)] split: if_splits)
  have "Min (set ?vs) \<le> Max (set ?vs)" using b(2,3) by linarith
  then have pos: "0 < Max (set ?vs) - Min (set ?vs)" using ne by linarith
  have "0 \<le> v - Min (set ?vs)" and "v - Min (set ?vs) \<le> Max (set ?vs) - Min (set ?vs)"
    using b(2,3) by linarith+
  then show ?thesis using pos by (simp add: x)
qed

text \<open>The division of the scaling never has a zero divisor with a non-zero dividend.\<close>

lemma norm_dividend_zero:
  assumes "r \<in> set df" and "cell_of r m = Some v"
    and "pd_sub (pd_max (map (\<lambda>r'. cell_of r' m) df)) (pd_min (map (\<lambda>r'. cell_of r' m) df)) = Some 0"
  shows "pd_sub (cell_of r m) (pd_min (map (\<lambda>r'. cell_of r' m) df)) = Some 0"
proof -
  note b = column_bounds [OF assms(1,2)]
  have "Max (set (present (map (\<lambda>r'. cell_of r' m) df)))
          = Min (set (present (map (\<lambda>r'. cell_of r' m) df)))"
    using assms(3) by (simp add: pd_min_Min [OF b(1)] pd_max_Max [OF b(1)] pd_sub_def)
  then have "v = Min (set (present (map (\<lambda>r'. cell_of r' m) df)))"
    using b(2,3) by linarith
  then show ?thesis by (simp add: assms(2) pd_min_Min [OF b(1)] pd_sub_def)
qed

lemma composite_score_raw:
  "composite_score False df ms r =
     (let vs = map (\<lambda>m. the (cell_of r m)) (own_columns ms r)
      in if vs = [] then None else Some (sum_list vs / real (length vs)))"
  by (simp add: composite_score_def composite_cells_def pd_mean_def present_map_filter
      own_columns_def)

lemma composite_score_normalized:
  "composite_score True df ms r =
     (let vs = map (\<lambda>m. the (norm_cell df m r))
                 (filter (\<lambda>m. pd_max (map (\<lambda>r'. cell_of r' m) df)
                                \<noteq> pd_min (map (\<lambda>r'. cell_of r' m) df))
                    (own_columns ms r))
      in if vs = [] then None else Some (sum_list vs / real (length vs)))"
proof -
  have "filter (\<lambda>m. norm_cell df m r \<noteq> None) ms =
        filter (\<lambda>m. pd_max (map (\<lambda>r'. cell_of r' m) df) \<noteq> pd_min (map (\<lambda>r'. cell_of r' m) df))
          (own_columns ms r)"
    unfolding own_columns_def filter_filter
    by (rule filter_cong) (simp_all only: norm_cell_Some_iff conj_commute)
  then show ?thesis
    by (simp only: composite_score_def composite_cells_def pd_mean_def present_map_filter if_True)
qed


section \<open>Statistics of statistics\<close>

lemma pd_max_Some_iff:
  "pd_max cs = Some v \<longleftrightarrow> present cs \<noteq> [] \<and> v = Max (set (present cs))"
proof (cases "present cs = []")
  case True
  then show ?thesis by (simp add: pd_max_empty)
next
  case False
  then show ?thesis by (auto simp: pd_max_Max)
qed

lemma pd_mean_None_iff: "pd_mean cs = None \<longleftrightarrow> present cs = []"
  by (simp add: pd_mean_def Let_def)

lemma pd_mean_value:
  "present cs \<noteq> [] \<Longrightarrow> the (pd_mean cs) = sum_list (present cs) / real (length (present cs))"
  by (simp add: pd_mean_def Let_def)

lemma pd_max_of_maxes:
  "pd_max (map (\<lambda>m. pd_max (f m)) ms) =
     (if concat (map (\<lambda>m. present (f m)) ms) = [] then None
      else Some (Max (set (concat (map (\<lambda>m. present (f m)) ms)))))"
proof -
  let ?A = "present (map (\<lambda>m. pd_max (f m)) ms)"
  let ?B = "concat (map (\<lambda>m. present (f m)) ms)"
  have A: "v \<in> set ?A \<longleftrightarrow> (\<exists>m \<in> set ms. present (f m) \<noteq> [] \<and> v = Max (set (present (f m))))" for v
  proof -
    have "v \<in> set ?A \<longleftrightarrow> Some v \<in> set (map (\<lambda>m. pd_max (f m)) ms)"
      by (simp only: set_present mem_Collect_eq)
    also have "\<dots> \<longleftrightarrow> (\<exists>m \<in> set ms. pd_max (f m) = Some v)"
      by (simp only: set_map image_iff eq_commute)
    finally show ?thesis by (simp only: pd_max_Some_iff)
  qed
  show ?thesis
  proof (cases "?B = []")
    case True
    then have "\<forall>m \<in> set ms. present (f m) = []" by simp
    then have "v \<notin> set ?A" for v by (simp only: A) simp
    then have "set ?A = {}" by (intro equals0I) simp
    then have "?A = []" by simp
    then show ?thesis using True by (simp add: pd_max_empty)
  next
    case False
    then obtain m where m: "m \<in> set ms" "present (f m) \<noteq> []" by auto
    then have "Max (set (present (f m))) \<in> set ?A" using A by blast
    then have ne: "?A \<noteq> []" by auto
    have "Max (set ?B) = Max (set ?A)"
    proof (rule Max_eqI)
      show "finite (set ?B)" by simp
      show "y \<le> Max (set ?A)" if "y \<in> set ?B" for y
      proof -
        from that obtain m' where m': "m' \<in> set ms" "y \<in> set (present (f m'))" by auto
        then have "present (f m') \<noteq> []" by auto
        then have "Max (set (present (f m'))) \<in> set ?A" using A m'(1) by blast
        then have "Max (set (present (f m'))) \<le> Max (set ?A)" by (intro Max_ge) simp_all
        moreover have "y \<le> Max (set (present (f m')))" using m'(2) by (intro Max_ge) simp_all
        ultimately show ?thesis by linarith
      qed
      have "Max (set ?A) \<in> set ?A" using ne by (intro Max_in) simp_all
      then obtain m' where m': "m' \<in> set ms" "present (f m') \<noteq> []"
        "Max (set ?A) = Max (set (present (f m')))" using A by blast
      have "Max (set (present (f m'))) \<in> set (present (f m'))"
        using m'(2) by (intro Max_in) simp_all
      then show "Max (set ?A) \<in> set ?B" using m'(1,3) by auto
    qed
    then show ?thesis using False by (simp add: pd_max_Max [OF ne])
  qed
qed

lemma pd_mean_of_means:
  "pd_mean (map (\<lambda>m. pd_mean (f m)) ms) =
     (let means = map (\<lambda>m. sum_list (present (f m)) / real (length (present (f m))))
                    (filter (\<lambda>m. present (f m) \<noteq> []) ms)
      in if means = [] then None else Some (sum_list means / real (length means)))"
proof -
  have flt: "filter (\<lambda>m. pd_mean (f m) \<noteq> None) ms = filter (\<lambda>m. present (f m) \<noteq> []) ms"
    by (simp add: pd_mean_None_iff)
  have "present (map (\<lambda>m. pd_mean (f m)) ms) =
        map (\<lambda>m. the (pd_mean (f m))) (filter (\<lambda>m. present (f m) \<noteq> []) ms)"
    by (simp only: present_map_filter flt)
  also have "\<dots> = map (\<lambda>m. sum_list (present (f m)) / real (length (present (f m))))
                    (filter (\<lambda>m. present (f m) \<noteq> []) ms)"
    by (rule map_cong) (simp_all add: pd_mean_value)
  finally show ?thesis by (simp only: pd_mean_def)
qed

lemma sum_list_divide: "sum_list (map (\<lambda>m. g m / k) ms) = sum_list (map g ms) / (k::real)"
  by (induction ms) (simp_all add: add_divide_distrib)

lemma length_concat_const:
  "\<forall>m \<in> set ms. length (h m) = k \<Longrightarrow> length (concat (map h ms)) = k * length ms"
  by (induction ms) simp_all

lemma sum_list_concat_map:
  "sum_list (concat (map h ms)) = sum_list (map (\<lambda>m. sum_list (h m)) ms)"
  for h :: "'a \<Rightarrow> real list"
  by (induction ms) simp_all

lemma pd_mean_of_means_equal_counts:
  assumes "ms \<noteq> []" and "0 < k" and "\<forall>m \<in> set ms. length (present (f m)) = k"
  shows "pd_mean (map (\<lambda>m. pd_mean (f m)) ms) =
           Some (sum_list (concat (map (\<lambda>m. present (f m)) ms))
                 / real (length (concat (map (\<lambda>m. present (f m)) ms))))"
proof -
  have ne: "\<forall>m \<in> set ms. present (f m) \<noteq> []" using assms(2,3) by auto
  then have flt: "filter (\<lambda>m. present (f m) \<noteq> []) ms = ms" by simp
  have means: "map (\<lambda>m. sum_list (present (f m)) / real (length (present (f m)))) ms =
               map (\<lambda>m. sum_list (present (f m)) / real k) ms"
    by (rule map_cong) (simp_all add: assms(3))
  have total: "sum_list (map (\<lambda>m. sum_list (present (f m)) / real k) ms) =
               sum_list (concat (map (\<lambda>m. present (f m)) ms)) / real k"
    by (simp only: sum_list_divide sum_list_concat_map)
  have len: "length (concat (map (\<lambda>m. present (f m)) ms)) = k * length ms"
    using assms(3) by (rule length_concat_const)
  have "pd_mean (map (\<lambda>m. pd_mean (f m)) ms) =
          Some (sum_list (concat (map (\<lambda>m. present (f m)) ms)) / real k / real (length ms))"
    using assms(1) by (simp add: pd_mean_of_means flt means total Let_def)
  then show ?thesis by (simp add: len)
qed


section \<open>The dashboard page\<close>

lemma dict_item_dict_get:
  "dict_item d k = (case dict_get d k of None \<Rightarrow> Inl (KeyError k) | Some v \<Rightarrow> Inr v)"
  by (simp add: dict_item_def dict_get_def)

lemma dict_get_key: "k \<in> set (dict_keys d) \<Longrightarrow> \<exists>v. dict_get d k = Some v"
  by (induction d) (auto simp: dict_keys_def dict_get_def)

lemma all_scores_empty_iff:
  "all_scores rp cands = [] \<longleftrightarrow>
     (\<forall>c \<in> set cands. get_scores_for_candidate rp (cand_id c) = [])"
  by (induction cands) (simp_all add: Let_def)

lemma dashboard_no_sessions:
  "list_sessions rp = [] \<Longrightarrow>
     show_analytics_dashboard rp selected =
       Inr (Info ''No sessions available. Create an interview session first.'')"
  by (simp add: show_analytics_dashboard_def)

lemma dashboard_selected:
  assumes "list_sessions rp \<noteq> []"
    and "dict_get (session_options (list_sessions rp)) selected = Some session_id"
  shows "selected_candidates rp selected = list_candidates rp session_id"
    and "show_analytics_dashboard rp selected =
      (if list_candidates rp session_id = []
       then Inr (Info ''No candidates in this session yet.'')
       else if all_scores rp (list_candidates rp session_id) = []
       then Inr (Info ''No scores recorded yet. Start evaluating candidates.'')
       else Inr (Shown
         \<lparr>total_candidates = length (list_candidates rp session_id),
          average_score = avg_total (all_scores rp (list_candidates rp session_id)),
          evaluated = length (filter (\<lambda>c. get_scores_for_candidate rp (cand_id c) \<noteq> [])
                                (list_candidates rp session_id)),
          highest_score = top_score (all_scores rp (list_candidates rp session_id))\<rparr>))"
proof -
  show "selected_candidates rp selected = list_candidates rp session_id"
    by (simp add: selected_candidates_def assms(2))
  have item: "dict_item (session_options (list_sessions rp)) selected = Inr session_id"
    by (simp add: dict_item_dict_get assms(2))
  show "show_analytics_dashboard rp selected =
      (if list_candidates rp session_id = []
       then Inr (Info ''No candidates in this session yet.'')
       else if all_scores rp (list_candidates rp session_id) = []
       then Inr (Info ''No scores recorded yet. Start evaluating candidates.'')
       else Inr (Shown
         \<lparr>total_candidates = length (list_candidates rp session_id),
          average_score = avg_total (all_scores rp (list_candidates rp session_id)),
          evaluated = length (filter (\<lambda>c. get_scores_for_candidate rp (cand_id c) \<noteq> [])
                                (list_candidates rp session_id)),
          highest_score = top_score (all_scores rp (list_candidates rp session_id))\<rparr>))"
  proof (cases "list_candidates rp session_id = []")
    case True
    then show ?thesis
      using assms(1) by (simp add: show_analytics_dashboard_def item)
  next
    case cands: False
    show ?thesis
    proof (cases "all_scores rp (list_candidates rp session_id) = []")
      case True
      then show ?thesis
        using assms(1) cands by (simp add: show_analytics_dashboard_def item)
    next
      case False
      then show ?thesis
        using assms(1) cands by (simp add: show_analytics_dashboard_def item Let_def)
    qed
  qed
qed

lemma dashboard_cases:
  assumes "list_sessions rp \<noteq> [] \<longrightarrow>
             selected \<in> set (dict_keys (session_options (list_sessions rp)))"
  shows "show_analytics_dashboard rp selected =
      (if list_sessions rp = []
       then Inr (Info ''No sessions available. Create an interview session first.'')
       else if selected_candidates rp selected = []
       then Inr (Info ''No candidates in this session yet.'')
       else if \<forall>c \<in> set (selected_candidates rp selected).
                 get_scores_for_candidate rp (cand_id c) = []
       then Inr (Info ''No scores recorded yet. Start evaluating candidates.'')
       else Inr (Shown
         \<lparr>total_candidates = length (selected_candidates rp selected),
          average_score = avg_total (all_scores rp (selected_candidates rp selected)),
          evaluated = length (filter (\<lambda>c. get_scores_for_candidate rp (cand_id c) \<noteq> [])
                                (selected_candidates rp selected)),
          highest_score = top_score (all_scores rp (selected_candidates rp selected))\<rparr>))"
proof (cases "list_sessions rp = []")
  case True
  then show ?thesis by (simp only: dashboard_no_sessions simp_thms if_True)
next
  case False
  with assms have "selected \<in> set (dict_keys (session_options (list_sessions rp)))" by simp
  then have "\<exists>v. dict_get (session_options (list_sessions rp)) selected = Some v"
    by (rule dict_get_key)
  then obtain session_id
    where s: "dict_get (session_options (list_sessions rp)) selected = Some session_id" ..
  note sel = dashboard_selected [OF False s]
  have empty: "(all_scores rp (list_candidates rp session_id) = []) =
        (\<forall>c \<in> set (list_candidates rp session_id).
            get_scores_for_candidate rp (cand_id c) = [])"
    by (rule all_scores_empty_iff)
  show ?thesis
    unfolding sel(1) unfolding sel(2) unfolding empty
    using False by (simp only: if_False)
qed


section \<open>Column order: first observation\<close>

lemma set_fold_unique:
  "set (fold (\<lambda>x uniques. if x \<in> set uniques then uniques else uniques @ [x]) xs acc)
     = set acc \<union> set xs"
  by (induction xs arbitrary: acc) auto

lemma distinct_fold_unique:
  "distinct acc \<Longrightarrow>
     distinct (fold (\<lambda>x uniques. if x \<in> set uniques then uniques else uniques @ [x]) xs acc)"
  by (induction xs arbitrary: acc) auto

lemma filter_fold_unique:
  "filter P (fold (\<lambda>x uniques. if x \<in> set uniques then uniques else uniques @ [x]) xs acc) =
     fold (\<lambda>x uniques. if x \<in> set uniques then uniques else uniques @ [x]) (filter P xs)
       (filter P acc)"
  by (induction xs arbitrary: acc) auto

lemma fold_unique_distinct:
  "distinct xs \<Longrightarrow> set xs \<inter> set acc = {} \<Longrightarrow>
     fold (\<lambda>x uniques. if x \<in> set uniques then uniques else uniques @ [x]) xs acc = acc @ xs"
  by (induction xs arbitrary: acc) auto

lemma set_fast_unique: "set (fast_unique xs) = set xs"
  by (simp add: fast_unique_def set_fold_unique)

lemma distinct_fast_unique: "distinct (fast_unique xs)"
  by (simp add: fast_unique_def distinct_fold_unique)

lemma filter_fast_unique: "filter P (fast_unique xs) = fast_unique (filter P xs)"
  by (simp add: fast_unique_def filter_fold_unique)

lemma fast_unique_distinct: "distinct xs \<Longrightarrow> fast_unique xs = xs"
  by (simp add: fast_unique_def fold_unique_distinct)

lemma fast_unique_Nil: "fast_unique [] = []"
  by (simp add: fast_unique_def)

text \<open>The loop started from a list of names found so far.\<close>

lemma fold_unique_acc:
  "fold (\<lambda>x uniques. if x \<in> set uniques then uniques else uniques @ [x]) xs acc =
     acc @ filter (\<lambda>y. y \<notin> set acc) (fast_unique xs)"
proof (induction xs arbitrary: acc)
  case Nil
  show ?case by (simp add: fast_unique_Nil)
next
  case (Cons x xs)
  have "fast_unique (x # xs) =
          fold (\<lambda>x uniques. if x \<in> set uniques then uniques else uniques @ [x]) xs [x]"
    by (simp add: fast_unique_def)
  also have "\<dots> = [x] @ filter (\<lambda>y. y \<notin> set [x]) (fast_unique xs)"
    by (rule Cons.IH)
  finally have head: "fast_unique (x # xs) = x # filter (\<lambda>y. y \<noteq> x) (fast_unique xs)"
    by simp
  show ?case
  proof (cases "x \<in> set acc")
    case True
    have "filter (\<lambda>y. y \<notin> set acc) (filter (\<lambda>y. y \<noteq> x) (fast_unique xs)) =
          filter (\<lambda>y. y \<notin> set acc) (fast_unique xs)"
      unfolding filter_filter by (rule filter_cong) (use True in auto)
    then show ?thesis using True by (simp add: head Cons.IH [of acc])
  next
    case False
    have "filter (\<lambda>y. y \<notin> set (acc @ [x])) (fast_unique xs) =
          filter (\<lambda>y. y \<notin> set acc) (filter (\<lambda>y. y \<noteq> x) (fast_unique xs))"
      unfolding filter_filter by (rule filter_cong) auto
    then show ?thesis using False by (simp add: head Cons.IH [of "acc @ [x]"])
  qed
qed

lemma fast_unique_Cons: "fast_unique (x # xs) = x # filter (\<lambda>y. y \<noteq> x) (fast_unique xs)"
proof -
  have "fast_unique (x # xs) =
          fold (\<lambda>x uniques. if x \<in> set uniques then uniques else uniques @ [x]) xs [x]"
    by (simp add: fast_unique_def)
  then show ?thesis by (simp add: fold_unique_acc)
qed

lemma fast_unique_append:
  "fast_unique (xs @ ys) = fast_unique xs @ filter (\<lambda>y. y \<notin> set xs) (fast_unique ys)"
proof -
  have "fast_unique (xs @ ys) =
          fold (\<lambda>x uniques. if x \<in> set uniques then uniques else uniques @ [x]) ys
            (fast_unique xs)"
    by (simp add: fast_unique_def)
  then show ?thesis by (simp add: fold_unique_acc set_fast_unique)
qed

lemma fast_unique_concat_map:
  "fast_unique (concat (map (\<lambda>x. fast_unique (g x)) xs)) = fast_unique (concat (map g xs))"
proof (induction xs)
  case Nil
  show ?case by simp
next
  case (Cons x xs)
  have "fast_unique (fast_unique (g x)) = fast_unique (g x)"
    by (rule fast_unique_distinct) (rule distinct_fast_unique)
  then show ?case
    by (simp add: fast_unique_append [of "fast_unique (g x)"] fast_unique_append [of "g x"]
        set_fast_unique Cons.IH)
qed

text \<open>The unique names stand in the order of their first occurrences.\<close>

lemma first_position_Cons:
  "first_position (x # xs) a = (if a = x then 0 else Suc (first_position xs a))"
  by (auto simp: first_position_def)

lemma sorted_first_position:
  "sorted_wrt (\<lambda>a b. first_position xs a < first_position xs b) (fast_unique xs)"
proof (induction xs)
  case Nil
  show ?case by (simp add: fast_unique_Nil)
next
  case (Cons x xs)
  have "sorted_wrt (\<lambda>a b. first_position xs a < first_position xs b)
          (filter (\<lambda>y. y \<noteq> x) (fast_unique xs))"
    using Cons.IH by (rule sorted_wrt_filter)
  then have "sorted_wrt (\<lambda>a b. first_position (x # xs) a < first_position (x # xs) b)
          (filter (\<lambda>y. y \<noteq> x) (fast_unique xs))"
    by (rule sorted_wrt_mono_rel [rotated]) (simp add: first_position_Cons)
  moreover have "\<forall>b \<in> set (filter (\<lambda>y. y \<noteq> x) (fast_unique xs)).
                   first_position (x # xs) x < first_position (x # xs) b"
    by (simp add: first_position_Cons)
  ultimately show ?case by (simp add: fast_unique_Cons)
qed

text \<open>Dictionaries built key by key.\<close>

lemma map_of_dict_set: "map_of (dict_set k v d) k' = (if k' = k then Some v else map_of d k')"
  by (induction d) auto

lemma dict_keys_dict_set:
  "dict_keys (dict_set k v d) = (if k \<in> set (dict_keys d) then dict_keys d else dict_keys d @ [k])"
  by (induction d) (auto simp: dict_keys_def)

lemma dict_keys_Nil: "dict_keys [] = []"
  by (simp add: dict_keys_def)

lemma dict_keys_fold:
  "dict_keys (fold (\<lambda>s row. dict_set (k s) (v s) row) ss d) =
     fold (\<lambda>x uniques. if x \<in> set uniques then uniques else uniques @ [x]) (map k ss)
       (dict_keys d)"
  by (induction ss arbitrary: d) (simp_all add: dict_keys_dict_set)

lemma dict_keys_score_dict: "dict_keys (score_dict scores) = fast_unique (map metric scores)"
  by (simp add: score_dict_def dict_keys_fold fast_unique_def dict_keys_Nil)

lemma dict_keys_export_cells:
  "dict_keys (e_cells (export_row_of registry rp cand)) =
     fast_unique (if get_scores_for_candidate rp (cand_id cand) \<noteq> []
                  then map metric (get_scores_for_candidate rp (cand_id cand))
                  else registry)"
proof (cases "get_scores_for_candidate rp (cand_id cand) = []")
  case True
  have "dict_keys (fold (\<lambda>m row. dict_set m None row) registry ([] :: (string \<times> cell) list)) =
        fast_unique registry"
    using dict_keys_fold [of "\<lambda>m. m" "\<lambda>m. None" registry "[] :: (string \<times> cell) list"]
    by (simp add: fast_unique_def dict_keys_Nil)
  then show ?thesis using True by (simp add: export_row_of_def)
next
  case False
  have "dict_keys (fold (\<lambda>s row. dict_set (metric s) (Some (svalue s)) row)
          (get_scores_for_candidate rp (cand_id cand)) ([] :: (string \<times> cell) list)) =
        fast_unique (map metric (get_scores_for_candidate rp (cand_id cand)))"
    by (simp add: dict_keys_fold fast_unique_def dict_keys_Nil)
  then show ?thesis using False by (simp add: export_row_of_def)
qed

text \<open>The metric columns of the ranking table: the score keys, unique, as first observed.\<close>

lemma df_metrics_observed:
  "df_metrics df =
     fast_unique (concat (map (\<lambda>r. filter (\<lambda>col. col \<notin> set reserved_columns)
                                     (dict_keys (r_scores r))) df))"
proof -
  have "filter (\<lambda>col. col \<notin> set reserved_columns)
          (concat (map (\<lambda>r. reserved_columns @ dict_keys (r_scores r)) df)) =
        concat (map (\<lambda>r. filter (\<lambda>col. col \<notin> set reserved_columns) (dict_keys (r_scores r))) df)"
    by (induction df) simp_all
  then show ?thesis
    by (simp only: df_metrics_def df_columns_def frame_columns_def filter_fast_unique)
qed

lemma candidate_data_keys:
  "concat (map (\<lambda>r. filter P (dict_keys (r_scores r))) (candidate_data rp cands)) =
     concat (map (\<lambda>c. fast_unique (filter P (map metric (get_scores_for_candidate rp (cand_id c)))))
               cands)"
  by (induction cands)
    (simp_all add: Let_def dict_keys_score_dict filter_fast_unique fast_unique_Nil)

lemma df_metrics_candidate_data:
  "df_metrics (candidate_data rp cands) =
     fast_unique (filter (\<lambda>m. m \<notin> set reserved_columns) (observed_metrics rp cands))"
proof -
  have "filter (\<lambda>m. m \<notin> set reserved_columns) (observed_metrics rp cands) =
        concat (map (\<lambda>c. filter (\<lambda>m. m \<notin> set reserved_columns)
                           (map metric (get_scores_for_candidate rp (cand_id c)))) cands)"
    by (simp add: observed_metrics_def filter_concat comp_def)
  then show ?thesis
    by (simp only: df_metrics_observed candidate_data_keys fast_unique_concat_map)
qed

text \<open>The metric columns of the export table, likewise.\<close>

lemma export_metric_columns_observed:
  "export_metric_columns rows =
     fast_unique (concat (map (\<lambda>r. filter (\<lambda>col. col \<notin> set export_fixed_columns)
                                     (dict_keys (e_cells r))) rows))"
proof -
  have "filter (\<lambda>col. col \<notin> set export_fixed_columns)
          (concat (map (\<lambda>r. export_fixed_columns @ dict_keys (e_cells r)) rows)) =
        concat (map (\<lambda>r. filter (\<lambda>col. col \<notin> set export_fixed_columns) (dict_keys (e_cells r))) rows)"
    by (induction rows) simp_all
  then show ?thesis
    by (simp only: export_metric_columns_def export_columns_def frame_columns_def filter_fast_unique)
qed

lemma export_metric_columns_export_data:
  "export_metric_columns (export_data registry rp cands) =
     fast_unique (filter (\<lambda>m. m \<notin> set export_fixed_columns) (export_observed registry rp cands))"
proof -
  let ?P = "\<lambda>m. m \<notin> set export_fixed_columns"
  let ?names = "\<lambda>c. if get_scores_for_candidate rp (cand_id c) \<noteq> []
                      then map metric (get_scores_for_candidate rp (cand_id c))
                      else registry"
  have "concat (map (\<lambda>r. filter ?P (dict_keys (e_cells r))) (export_data registry rp cands)) =
        concat (map (\<lambda>c. fast_unique (filter ?P (?names c))) cands)"
    by (induction cands)
      (simp_all only: export_data_def list.map concat.simps dict_keys_export_cells
        filter_fast_unique)
  moreover have "filter ?P (export_observed registry rp cands) =
        concat (map (\<lambda>c. filter ?P (?names c)) cands)"
    by (simp add: export_observed_def filter_concat comp_def)
  ultimately show ?thesis
    by (simp only: export_metric_columns_observed fast_unique_concat_map)
qed

text \<open>The cells of an export row.\<close>

lemma map_of_fold_scores:
  "map_of (fold (\<lambda>s row. dict_set (metric s) (Some (svalue s)) row) scores d) m =
     (case filter (\<lambda>s. metric s = m) scores of
        [] \<Rightarrow> map_of d m
      | s # ss \<Rightarrow> Some (Some (svalue (last (s # ss)))))"
proof (induction scores arbitrary: d)
  case Nil
  show ?case by simp
next
  case (Cons a scores)
  show ?case
  proof (cases "metric a = m")
    case True
    then show ?thesis
      by (simp add: Cons.IH map_of_dict_set split: list.splits)
  next
    case False
    then have "m \<noteq> metric a" by auto
    then show ?thesis using False
      by (simp add: Cons.IH map_of_dict_set split: list.splits)
  qed
qed

lemma map_of_fold_registry:
  assumes "map_of d m = None \<or> map_of d m = Some None"
  shows "map_of (fold (\<lambda>k row. dict_set k None row) registry d) m = None
       \<or> map_of (fold (\<lambda>k row. dict_set k None row) registry d) m = Some None"
  using assms
proof (induction registry arbitrary: d)
  case Nil
  then show ?case by simp
next
  case (Cons a registry)
  have "map_of (dict_set a None d) m = None \<or> map_of (dict_set a None d) m = Some None"
    using Cons.prems by (simp add: map_of_dict_set)
  then have "map_of (fold (\<lambda>k row. dict_set k None row) registry (dict_set a None d)) m = None
       \<or> map_of (fold (\<lambda>k row. dict_set k None row) registry (dict_set a None d)) m = Some None"
    by (rule Cons.IH)
  then show ?case by simp
qed

lemma export_cell_value:
  "export_cell (export_row_of registry rp cand) m =
     (case filter (\<lambda>s. metric s = m) (get_scores_for_candidate rp (cand_id cand)) of
        [] \<Rightarrow> None
      | s # ss \<Rightarrow> Some (svalue (last (s # ss))))"
proof (cases "get_scores_for_candidate rp (cand_id cand) = []")
  case True
  have "map_of (fold (\<lambda>k row. dict_set k None row) registry ([] :: (string \<times> cell) list)) m = None
      \<or> map_of (fold (\<lambda>k row. dict_set k None row) registry ([] :: (string \<times> cell) list)) m
          = Some None"
    by (rule map_of_fold_registry) simp
  then show ?thesis
    using True by (auto simp: export_cell_def export_row_of_def dict_get_def)
next
  case False
  then show ?thesis
    by (simp add: export_cell_def export_row_of_def dict_get_def map_of_fold_scores
        split: list.splits)
qed


section \<open>The ranking page\<close>

text \<open>
  The table the page shows is the ranking of the candidate table of the selected
  session, so what holds for \<open>ranking\<close> on every table holds for the page.
\<close>

lemma candidate_data_empty_iff:
  "candidate_data rp cands = [] \<longleftrightarrow>
     (\<forall>c \<in> set cands. get_scores_for_candidate rp (cand_id c) = [])"
  by (induction cands) (simp_all add: Let_def)

lemma distinct_dict_keys_dict_set:
  "distinct (dict_keys d) \<Longrightarrow> distinct (dict_keys (dict_set k v d))"
  by (simp add: dict_keys_dict_set)

lemma distinct_dict_keys_fold:
  "distinct (dict_keys d) \<Longrightarrow>
     distinct (dict_keys (fold (\<lambda>s row. dict_set (metric s) (svalue s) row) scores d))"
  by (induction scores arbitrary: d) (simp_all add: distinct_dict_keys_dict_set)

lemma distinct_score_dict: "distinct (dict_keys (score_dict scores))"
  unfolding score_dict_def by (rule distinct_dict_keys_fold) (simp add: dict_keys_def)

lemma ranking_page_shown:
  assumes "show_ranking_module srt rp selected cfg = Inr (Shown table)"
  shows "ranking srt cfg (candidate_data rp (selected_candidates rp selected)) = Inr table"
proof -
  have sessions: "list_sessions rp \<noteq> []"
    using assms by (auto simp: show_ranking_module_def)
  obtain session_id
    where item: "dict_item (session_options (list_sessions rp)) selected = Inr session_id"
    using assms sessions
    by (cases "dict_item (session_options (list_sessions rp)) selected")
      (simp_all add: show_ranking_module_def)
  then have "dict_get (session_options (list_sessions rp)) selected = Some session_id"
    by (simp add: dict_item_dict_get split: option.splits)
  then have cands: "selected_candidates rp selected = list_candidates rp session_id"
    by (simp add: selected_candidates_def)
  show ?thesis
    using assms sessions
    unfolding show_ranking_module_def item cands Let_def
    by (cases "ranking srt cfg (candidate_data rp (list_candidates rp session_id))")
      (simp_all split: if_splits)
qed


section \<open>Length, ranks and order of every ranking (C6)\<close>

text \<open>
  C6, as amended. For every table, every ranking method and every sorting routine that
  meets the contract, the ranking returns a table (Single Metric given a metric column);
  its length is the minimum of \<open>top_n\<close> and the number of candidates with at least one
  score (the rows of the table, whether or not the method gives them a score); the ranks
  are 1, 2, ... up to the length; and whenever an entry has a numeric score, every
  earlier entry has a numeric score that is at least as large. So the numeric scores
  come first, non-increasing, and the entries with a missing score follow them.
\<close>

theorem ranking_length_ranks_order:
  assumes "argsort_ok srt"
    and "weight_method cfg = Single_Metric \<longrightarrow> ranking_metric cfg \<in> set (df_metrics df)"
  shows "\<exists>table. ranking srt cfg df = Inr table
           \<and> length table = min (top_n cfg) (length df)
           \<and> map rank_no table = [1..<length table + 1]
           \<and> (\<forall>p q y. p < q \<and> q < length table \<and> score_col (table ! q) = Some y
                 \<longrightarrow> (\<exists>x. score_col (table ! p) = Some x \<and> y \<le> x))"
proof -
  from ranking_returns [OF assms(2)] obtain table where t: "ranking srt cfg df = Inr table"
    by blast
  have "length table = min (top_n cfg) (length df)"
    and "map rank_no table = [1..<length table + 1]"
    using ranking_postcondition_aux(1,2) [OF assms(1) t] by blast+
  moreover have "\<forall>p q y. p < q \<and> q < length table \<and> score_col (table ! q) = Some y
                  \<longrightarrow> (\<exists>x. score_col (table ! p) = Some x \<and> y \<le> x)"
    using ranking_postcondition_aux(3) [OF assms(1) t] by blast
  ultimately show ?thesis using t by blast
qed

text \<open>
  The theorem at the specification's example (A, B, C; Single Metric on Technical, top 2)
  with the stable sorting routine: ranks 1 and 2, and the first score is at least the
  second.
\<close>

theorem ranking_length_ranks_order_witness:
  "argsort_ok stable_argsort
   \<and> ranking_metric (example_config Single_Metric 2) \<in> set (df_metrics [row_A, row_B, row_C])
   \<and> (\<exists>table. ranking stable_argsort (example_config Single_Metric 2) [row_A, row_B, row_C] = Inr table
         \<and> length table = 2 \<and> map rank_no table = [1, 2]
         \<and> (\<exists>x. score_col (table ! 0) = Some x \<and> 8 \<le> x))"
proof -
  define cfg where "cfg = example_config Single_Metric 2"
  define df where "df = [row_A, row_B, row_C]"
  have m: "ranking_metric cfg \<in> set (df_metrics df)"
    unfolding cfg_def df_def by code_simp
  have r: "ranking stable_argsort cfg df =
        Inr [\<lparr>rank_no = 1, name = ''A'', score_col = Some 8, metric_cells = []\<rparr>,
             \<lparr>rank_no = 2, name = ''B'', score_col = Some 8, metric_cells = []\<rparr>]"
    unfolding cfg_def df_def by code_simp
  have n: "min (top_n cfg) (length df) = 2"
    unfolding cfg_def df_def by code_simp
  from ranking_length_ranks_order [OF stable_argsort_ok, of cfg df] m
  obtain table where t: "ranking stable_argsort cfg df = Inr table"
    and len: "length table = min (top_n cfg) (length df)"
    and ranks: "map rank_no table = [1..<length table + 1]"
    and ord: "\<forall>p q y. p < q \<and> q < length table \<and> score_col (table ! q) = Some y
                 \<longrightarrow> (\<exists>x. score_col (table ! p) = Some x \<and> y \<le> x)"
    by auto
  have len2: "length table = 2" using len n by simp
  have tbl: "table = [\<lparr>rank_no = 1, name = ''A'', score_col = Some 8, metric_cells = []\<rparr>,
                  \<lparr>rank_no = 2, name = ''B'', score_col = Some 8, metric_cells = []\<rparr>]"
    using t r by simp
  have q: "score_col (table ! 1) = Some 8" unfolding tbl by simp
  have first: "\<exists>x. score_col (table ! 0) = Some x \<and> 8 \<le> x"
    using ord [rule_format, of 0 1 8] q len2 by simp
  have ranks2: "map rank_no table = [1, 2]" unfolding tbl by simp
  show ?thesis
  proof (intro conjI)
    show "argsort_ok stable_argsort" by (rule stable_argsort_ok)
    show "ranking_metric (example_config Single_Metric 2) \<in> set (df_metrics [row_A, row_B, row_C])"
      using m unfolding cfg_def df_def .
    show "\<exists>table. ranking stable_argsort (example_config Single_Metric 2) [row_A, row_B, row_C] = Inr table
         \<and> length table = 2 \<and> map rank_no table = [1, 2]
         \<and> (\<exists>x. score_col (table ! 0) = Some x \<and> 8 \<le> x)"
      using t len2 ranks2 first unfolding cfg_def df_def by (intro exI [of _ table]) simp
  qed
qed

text \<open>
  C6 as stated fails for Single Metric. With E (no Technical score), A and C, ranked by
  Technical with \<open>top_n = 3\<close>, the result has three entries, though only two candidates
  can be ranked by Technical; and its score column, 8, 5, NaN, is not non-increasing.
\<close>

theorem single_metric_length_counterexample:
  "ranking stable_argsort (example_config Single_Metric 3) [row_E, row_A, row_C] =
     Inr [\<lparr>rank_no = 1, name = ''A'', score_col = Some 8, metric_cells = []\<rparr>,
          \<lparr>rank_no = 2, name = ''C'', score_col = Some 5, metric_cells = []\<rparr>,
          \<lparr>rank_no = 3, name = ''E'', score_col = None, metric_cells = []\<rparr>]
   \<and> min (top_n (example_config Single_Metric 3))
         (length (filter (spec_rankable (example_config Single_Metric 3)) [row_E, row_A, row_C])) = 2
   \<and> \<not> nonincreasing [Some 8, Some 5, None]"
  by code_simp


section \<open>Single Metric: candidates without the chosen metric (C2)\<close>

text \<open>
  C2, as amended. In the Single Metric method every entry's score is the candidate's
  value for the chosen metric, and the candidates with a value come first, sorted
  non-increasing. Candidates without a score for the chosen metric are not excluded:
  they follow all scored candidates. None of them is in the result when \<open>top_n\<close> is at
  most the number of scored candidates; one of them is in the result when \<open>top_n\<close>
  exceeds that number and the table has such a candidate.
\<close>

theorem single_metric_scored_first:
  assumes "argsort_ok srt"
    and "weight_method cfg = Single_Metric"
    and "ranking_metric cfg \<in> set (df_metrics df)"
  shows "\<exists>table. ranking srt cfg df = Inr table
           \<and> length table = length (df_ranked srt cfg df)
           \<and> (\<forall>k. k < length table \<longrightarrow>
                  df_ranked srt cfg df ! k \<in> set df
                  \<and> name (table ! k) = r_name (df_ranked srt cfg df ! k)
                  \<and> score_col (table ! k) = cell_of (df_ranked srt cfg df ! k) (ranking_metric cfg))
           \<and> (\<forall>p q y. p < q \<and> q < length table \<and> score_col (table ! q) = Some y
                 \<longrightarrow> (\<exists>x. score_col (table ! p) = Some x \<and> y \<le> x))
           \<and> (top_n cfg \<le> length (filter (\<lambda>r. cell_of r (ranking_metric cfg) \<noteq> None) df)
                 \<longrightarrow> (\<forall>k. k < length table \<longrightarrow> score_col (table ! k) \<noteq> None))
           \<and> (length (filter (\<lambda>r. cell_of r (ranking_metric cfg) \<noteq> None) df) < top_n cfg
                \<and> length (filter (\<lambda>r. cell_of r (ranking_metric cfg) \<noteq> None) df) < length df
                 \<longrightarrow> (\<exists>k. k < length table \<and> score_col (table ! k) = None))"
proof -
  let ?rows = "df_ranked srt cfg df"
  let ?table = "ranked_table (score_column cfg df) [] ?rows"
  have sc: "score_column cfg df = (\<lambda>r. cell_of r (ranking_metric cfg))"
    using assms(2) by (simp add: score_column_def fun_eq_iff)
  have t: "ranking srt cfg df = Inr ?table"
    using assms(2,3) by (simp add: ranking_def)
  have len: "length ?table = length ?rows" by (rule length_ranked_table)
  have entry: "df_ranked srt cfg df ! k \<in> set df
                  \<and> name (?table ! k) = r_name (?rows ! k)
                  \<and> score_col (?table ! k) = cell_of (?rows ! k) (ranking_metric cfg)"
    if "k < length ?table" for k
  proof -
    have k: "k < length ?rows" using that by (simp only: len)
    show ?thesis
      unfolding nth_ranked_table [OF k]
      using nth_df_ranked_in_df [OF assms(1) k] by (simp add: sc)
  qed
  have ord: "\<exists>x. score_col (?table ! p) = Some x \<and> y \<le> x"
    if "p < q \<and> q < length ?table \<and> score_col (?table ! q) = Some y" for p q y
    using ranking_postcondition_aux(3) [OF assms(1) t] that by blast
  have full: "score_col (?table ! k) \<noteq> None"
    if "top_n cfg \<le> length (filter (\<lambda>r. cell_of r (ranking_metric cfg) \<noteq> None) df)"
      and "k < length ?table" for k
  proof -
    have k: "k < length ?rows" using that(2) by (simp only: len)
    have "score_column cfg df (?rows ! k) \<noteq> None"
      by (rule df_ranked_all_scored [OF assms(1) _ k]) (use that(1) in \<open>simp only: sc\<close>)
    then show ?thesis using k by (simp add: nth_ranked_table)
  qed
  have some: "\<exists>k. k < length ?table \<and> score_col (?table ! k) = None"
    if "length (filter (\<lambda>r. cell_of r (ranking_metric cfg) \<noteq> None) df) < top_n cfg
        \<and> length (filter (\<lambda>r. cell_of r (ranking_metric cfg) \<noteq> None) df) < length df"
  proof -
    have "\<exists>k < length ?rows. score_column cfg df (?rows ! k) = None"
      by (rule df_ranked_some_missing [OF assms(1)]) (use that in \<open>simp_all only: sc\<close>)
    then obtain k where "k < length ?rows" and "score_column cfg df (?rows ! k) = None" by blast
    then have "k < length ?table \<and> score_col (?table ! k) = None"
      by (simp add: len nth_ranked_table)
    then show ?thesis by blast
  qed
  show ?thesis
    apply (rule exI [of _ ?table])
    apply (intro conjI allI impI)
    subgoal by (rule t)
    subgoal by (rule len)
    subgoal for k using entry [of k] by blast
    subgoal for k using entry [of k] by blast
    subgoal for k using entry [of k] by blast
    subgoal for p q y by (rule ord)
    subgoal for k by (rule full)
    subgoal by (rule some)
    done
qed

text \<open>
  The theorem at the table of A (Technical 8) and E (no Technical score), ranked by
  Technical with \<open>top_n = 2\<close> and the stable sorting routine: one candidate is scored,
  \<open>top_n\<close> exceeds that, and an entry without a score is in the result.
\<close>

theorem single_metric_scored_first_witness:
  "argsort_ok stable_argsort
   \<and> weight_method (example_config Single_Metric 2) = Single_Metric
   \<and> ranking_metric (example_config Single_Metric 2) \<in> set (df_metrics [row_A, row_E])
   \<and> length (filter (\<lambda>r. cell_of r (ranking_metric (example_config Single_Metric 2)) \<noteq> None)
         [row_A, row_E]) = 1
   \<and> (\<exists>table. ranking stable_argsort (example_config Single_Metric 2) [row_A, row_E] = Inr table
         \<and> (\<exists>k. k < length table \<and> score_col (table ! k) = None))"
proof -
  define cfg where "cfg = example_config Single_Metric 2"
  define df where "df = [row_A, row_E]"
  have w: "weight_method cfg = Single_Metric" unfolding cfg_def by code_simp
  have m: "ranking_metric cfg \<in> set (df_metrics df)" unfolding cfg_def df_def by code_simp
  have n: "length (filter (\<lambda>r. cell_of r (ranking_metric cfg) \<noteq> None) df) = 1"
    unfolding cfg_def df_def by code_simp
  have n': "length (filter (\<lambda>r. cell_of r (ranking_metric cfg) \<noteq> None) df) < top_n cfg
            \<and> length (filter (\<lambda>r. cell_of r (ranking_metric cfg) \<noteq> None) df) < length df"
    unfolding n unfolding cfg_def df_def by code_simp
  from single_metric_scored_first [OF stable_argsort_ok w m]
  obtain table where t: "ranking stable_argsort cfg df = Inr table"
    and some: "length (filter (\<lambda>r. cell_of r (ranking_metric cfg) \<noteq> None) df) < top_n cfg
                \<and> length (filter (\<lambda>r. cell_of r (ranking_metric cfg) \<noteq> None) df) < length df
                 \<longrightarrow> (\<exists>k. k < length table \<and> score_col (table ! k) = None)"
    by blast
  from some n' have "\<exists>k. k < length table \<and> score_col (table ! k) = None" by (rule mp)
  with t have "\<exists>table. ranking stable_argsort cfg df = Inr table
         \<and> (\<exists>k. k < length table \<and> score_col (table ! k) = None)" by blast
  with stable_argsort_ok w m n show ?thesis unfolding cfg_def df_def by (intro conjI)
qed

text \<open>
  C2 as stated fails at that table: E has no Technical score and is the second entry of
  the ranking by Technical.
\<close>

theorem single_metric_unscored_counterexample:
  "cell_of row_E ''Technical'' = None
   \<and> ranking stable_argsort (example_config Single_Metric 2) [row_A, row_E] =
       Inr [\<lparr>rank_no = 1, name = ''A'', score_col = Some 8, metric_cells = []\<rparr>,
            \<lparr>rank_no = 2, name = ''E'', score_col = None, metric_cells = []\<rparr>]"
  by code_simp


section \<open>Weighted Average: a missing metric makes the score missing (C1, C10)\<close>




text \<open>
  C1, as amended. In the Weighted Average method every entry of the result is a
  candidate of the table, shown with its metric cells. For every returned candidate that
  has a value for every observed metric, the ranking score equals the sum over the
  metrics of weight times value (which is the specified sum, no metric being missing).
  For every returned candidate that lacks a metric, the ranking score is missing (NaN),
  not the zero-filled sum. Such a candidate is still ranked: every row of the table is
  a row of the sorted table.
\<close>

theorem weighted_score_complete_rows:
  assumes "argsort_ok srt" and "weight_method cfg = Weighted_Average"
  shows "mset (sort_values srt (score_column cfg df) df) = mset df
       \<and> (\<exists>table. ranking srt cfg df = Inr table
             \<and> length table = length (df_ranked srt cfg df)
             \<and> (\<forall>k. k < length table \<longrightarrow>
                    df_ranked srt cfg df ! k \<in> set df
                    \<and> name (table ! k) = r_name (df_ranked srt cfg df ! k)
                    \<and> metric_cells (table ! k) =
                        map (\<lambda>m. cell_of (df_ranked srt cfg df ! k) m) (df_metrics df)
                    \<and> score_col (table ! k) =
                        (if None \<in> set (metric_cells (table ! k)) then None
                         else Some (spec_weighted_score (weights cfg) (df_metrics df)
                                      (df_ranked srt cfg df ! k)))))"
proof -
  let ?rows = "df_ranked srt cfg df"
  let ?table = "ranked_table (score_column cfg df) (df_metrics df) ?rows"
  have t: "ranking srt cfg df = Inr ?table"
    using assms(2) by (simp add: ranking_def)
  have len: "length ?table = length ?rows" by (rule length_ranked_table)
  have sc: "score_column cfg df r = weighted_score (weights cfg) (df_metrics df) r" for r
    using assms(2) by (simp add: score_column_def)
  have missing: "None \<in> set (map (\<lambda>m. cell_of r m) (df_metrics df)) \<longleftrightarrow>
                 \<not> (\<forall>m \<in> set (df_metrics df). cell_of r m \<noteq> None)" for r
  proof
    assume "None \<in> set (map (\<lambda>m. cell_of r m) (df_metrics df))"
    then obtain m where "m \<in> set (df_metrics df)" and "cell_of r m = None" by auto
    then show "\<not> (\<forall>m \<in> set (df_metrics df). cell_of r m \<noteq> None)" by auto
  next
    assume "\<not> (\<forall>m \<in> set (df_metrics df). cell_of r m \<noteq> None)"
    then obtain m where "m \<in> set (df_metrics df)" and "cell_of r m = None" by auto
    then show "None \<in> set (map (\<lambda>m. cell_of r m) (df_metrics df))"
      by (metis (mono_tags, lifting) image_eqI list.set_map)
  qed
  have wsum: "weighted_score (weights cfg) (df_metrics df) r =
                 (if None \<in> set (map (\<lambda>m. cell_of r m) (df_metrics df)) then None
                  else Some (spec_weighted_score (weights cfg) (df_metrics df) r))" for r
    unfolding weighted_score_cases missing by simp
  have entry: "?rows ! k \<in> set df
                \<and> name (?table ! k) = r_name (?rows ! k)
                \<and> metric_cells (?table ! k) = map (\<lambda>m. cell_of (?rows ! k) m) (df_metrics df)
                \<and> score_col (?table ! k) =
                    (if None \<in> set (metric_cells (?table ! k)) then None
                     else Some (spec_weighted_score (weights cfg) (df_metrics df) (?rows ! k)))"
    if "k < length ?table" for k
  proof -
    have k: "k < length ?rows" using that by (simp only: len)
    show ?thesis
      unfolding nth_ranked_table [OF k]
      using nth_df_ranked_in_df [OF assms(1) k] by (simp add: sc wsum)
  qed
  show ?thesis
    apply (intro conjI)
    subgoal by (rule mset_sort_values [OF assms(1)])
    subgoal
      apply (rule exI [of _ ?table])
      apply (intro conjI allI impI)
      subgoal by (rule t)
      subgoal by (rule len)
      subgoal for k using entry [of k] by blast
      subgoal for k using entry [of k] by blast
      subgoal for k using entry [of k] by blast
      subgoal for k using entry [of k] by blast
      done
    done
qed

text \<open>
  The theorem at the table A, D, B, C (weights 1.0 and 0.5, top 4) with the stable
  sorting routine: the first entry is B, which has both metrics and the score
  8 + 4.5; the last entry is D, which has no Communication score, and its score is
  missing.
\<close>

theorem weighted_score_complete_rows_witness:
  "argsort_ok stable_argsort
   \<and> weight_method (example_config Weighted_Average 4) = Weighted_Average
   \<and> df_ranked stable_argsort (example_config Weighted_Average 4) [row_A, row_D, row_B, row_C] ! 0
       = row_B
   \<and> df_ranked stable_argsort (example_config Weighted_Average 4) [row_A, row_D, row_B, row_C] ! 3
       = row_D
   \<and> spec_weighted_score (weights (example_config Weighted_Average 4))
        (df_metrics [row_A, row_D, row_B, row_C]) row_B = 25 / 2
   \<and> (\<exists>table. ranking stable_argsort (example_config Weighted_Average 4)
                  [row_A, row_D, row_B, row_C] = Inr table
         \<and> metric_cells (table ! 0) = [Some 8, Some 9]
         \<and> score_col (table ! 0) = Some (25 / 2)
         \<and> metric_cells (table ! 3) = [Some 9, None]
         \<and> score_col (table ! 3) = None)"
proof -
  define cfg where "cfg = example_config Weighted_Average 4"
  define df where "df = [row_A, row_D, row_B, row_C]"
  have w: "weight_method cfg = Weighted_Average" unfolding cfg_def by code_simp
  have r0: "df_ranked stable_argsort cfg df ! 0 = row_B" unfolding cfg_def df_def by code_simp
  have r3: "df_ranked stable_argsort cfg df ! 3 = row_D" unfolding cfg_def df_def by code_simp
  have s: "spec_weighted_score (weights cfg) (df_metrics df) row_B = 25 / 2"
    unfolding cfg_def df_def by code_simp
  have cells_B: "map (\<lambda>m. cell_of row_B m) (df_metrics df) = [Some 8, Some 9]"
    unfolding df_def by code_simp
  have cells_D: "map (\<lambda>m. cell_of row_D m) (df_metrics df) = [Some 9, None]"
    unfolding df_def by code_simp
  have n: "length (df_ranked stable_argsort cfg df) = 4" unfolding cfg_def df_def by code_simp
  from weighted_score_complete_rows [OF stable_argsort_ok w, of df]
  obtain table where t: "ranking stable_argsort cfg df = Inr table"
    and len: "length table = length (df_ranked stable_argsort cfg df)"
    and entry: "\<forall>k. k < length table \<longrightarrow>
                    df_ranked stable_argsort cfg df ! k \<in> set df
                    \<and> name (table ! k) = r_name (df_ranked stable_argsort cfg df ! k)
                    \<and> metric_cells (table ! k) =
                        map (\<lambda>m. cell_of (df_ranked stable_argsort cfg df ! k) m) (df_metrics df)
                    \<and> score_col (table ! k) =
                        (if None \<in> set (metric_cells (table ! k)) then None
                         else Some (spec_weighted_score (weights cfg) (df_metrics df)
                                      (df_ranked stable_argsort cfg df ! k)))"
    by (elim conjE exE)
  have k0: "0 < length table" and k3: "3 < length table" using len n by simp_all
  note e0 = entry [rule_format, OF k0, unfolded r0 s cells_B]
  note e3 = entry [rule_format, OF k3, unfolded r3 cells_D]
  from e0 have mc0: "metric_cells (table ! 0) = [Some 8, Some 9]" by (elim conjE)
  from e0 have sc0: "score_col (table ! 0) =
        (if None \<in> set (metric_cells (table ! 0)) then None else Some (25 / 2))"
    by (elim conjE)
  from e3 have mc3: "metric_cells (table ! 3) = [Some 9, None]" by (elim conjE)
  from e3 have sc3: "score_col (table ! 3) =
        (if None \<in> set (metric_cells (table ! 3)) then None
         else Some (spec_weighted_score (weights cfg) (df_metrics df) row_D))"
    by (elim conjE)
  have s0: "score_col (table ! 0) = Some (25 / 2)" using sc0 unfolding mc0 by simp
  have s3: "score_col (table ! 3) = None" using sc3 unfolding mc3 by simp
  have "\<exists>table. ranking stable_argsort cfg df = Inr table
         \<and> metric_cells (table ! 0) = [Some 8, Some 9]
         \<and> score_col (table ! 0) = Some (25 / 2)
         \<and> metric_cells (table ! 3) = [Some 9, None]
         \<and> score_col (table ! 3) = None"
    using t mc0 s0 mc3 s3 by (intro exI [of _ table] conjI)
  with stable_argsort_ok w r0 r3 s show ?thesis unfolding cfg_def df_def by (intro conjI)
qed

text \<open>
  C1 as stated fails for a candidate that lacks a metric. With D (Technical 9, no
  Communication score) and B, the specified score of D is 9 * 1.0 + 0 * 0.5 = 9; the
  ranking gives D no score.
\<close>

theorem weighted_zero_fill_counterexample:
  "spec_weighted_score (weights (example_config Weighted_Average 2)) (df_metrics [row_D, row_B]) row_D = 9
   \<and> ranking stable_argsort (example_config Weighted_Average 2) [row_D, row_B] =
       Inr [\<lparr>rank_no = 1, name = ''B'', score_col = Some (25 / 2), metric_cells = [Some 8, Some 9]\<rparr>,
            \<lparr>rank_no = 2, name = ''D'', score_col = None, metric_cells = [Some 9, None]\<rparr>]"
  by code_simp


section \<open>Composite Score: the min-max scaling (C3)\<close>

text \<open>
  C3, as amended. For a candidate of the table, every normalized value that is there
  lies between 0 and 1. When the maximum of a metric equals its minimum over the table,
  the normalized value of every candidate for that metric is missing (NaN), not 0.0.
  The scaling is float arithmetic on columns and raises nothing: the Composite Score
  ranking returns a table for every input.
\<close>

theorem normalized_values_range:
  "(r \<in> set df \<longrightarrow> (\<forall>x. norm_cell df m r = Some x \<longrightarrow> 0 \<le> x \<and> x \<le> 1))
   \<and> (pd_max (map (\<lambda>r'. cell_of r' m) df) = pd_min (map (\<lambda>r'. cell_of r' m) df)
        \<longrightarrow> norm_cell df m r = None)
   \<and> (weight_method cfg = Composite_Score \<longrightarrow> (\<exists>table. ranking srt cfg df = Inr table))"
proof (intro conjI impI allI)
  fix x assume "r \<in> set df" and "norm_cell df m r = Some x"
  then have "0 \<le> x \<and> x \<le> 1" by (rule norm_cell_range)
  then show "0 \<le> x" and "x \<le> 1" by simp_all
next
  assume "pd_max (map (\<lambda>r'. cell_of r' m) df) = pd_min (map (\<lambda>r'. cell_of r' m) df)"
  then show "norm_cell df m r = None" by (rule norm_cell_constant)
next
  assume "weight_method cfg = Composite_Score"
  then show "\<exists>table. ranking srt cfg df = Inr table" by (intro ranking_returns) simp
qed

text \<open>
  The theorem at the specification's example: the normalized Communication value of C
  among A, B, C is 1/3, and the normalized ranking returns a table; among A and B alone
  the Technical column is constant and the normalized Technical value of A is missing.
\<close>

theorem normalized_values_range_witness:
  "row_C \<in> set [row_A, row_B, row_C]
   \<and> norm_cell [row_A, row_B, row_C] ''Communication'' row_C = Some (1 / 3)
   \<and> (0::real) \<le> 1 / 3 \<and> (1::real) / 3 \<le> 1
   \<and> pd_max (map (\<lambda>r'. cell_of r' ''Technical'') [row_A, row_B])
       = pd_min (map (\<lambda>r'. cell_of r' ''Technical'') [row_A, row_B])
   \<and> norm_cell [row_A, row_B] ''Technical'' row_A = None
   \<and> weight_method (example_config Composite_Score 2) = Composite_Score
   \<and> (\<exists>table. ranking stable_argsort (example_config Composite_Score 2) [row_A, row_B, row_C] = Inr table)"
proof -
  have r: "row_C \<in> set [row_A, row_B, row_C]" by simp
  have n: "norm_cell [row_A, row_B, row_C] ''Communication'' row_C = Some (1 / 3)" by code_simp
  have c: "pd_max (map (\<lambda>r'. cell_of r' ''Technical'') [row_A, row_B])
       = pd_min (map (\<lambda>r'. cell_of r' ''Technical'') [row_A, row_B])" by code_simp
  have w: "weight_method (example_config Composite_Score 2) = Composite_Score" by code_simp
  note one = normalized_values_range [of row_C "[row_A, row_B, row_C]" "''Communication''"
      "example_config Composite_Score 2" stable_argsort]
  note two = normalized_values_range [of row_A "[row_A, row_B]" "''Technical''"
      "example_config Composite_Score 2" stable_argsort]
  from one r n have range: "(0::real) \<le> 1 / 3 \<and> (1::real) / 3 \<le> 1" by blast
  from one w have t: "\<exists>table. ranking stable_argsort (example_config Composite_Score 2)
      [row_A, row_B, row_C] = Inr table" by blast
  from two c have none: "norm_cell [row_A, row_B] ''Technical'' row_A = None" by blast
  from r n range c none w t show ?thesis by (intro conjI) simp_all
qed

text \<open>
  C3 as stated fails where a column is constant. A and B both have Technical 8: the
  specified normalized value is 0.0, the computed one is NaN.
\<close>

theorem normalized_constant_counterexample:
  "pd_max (map (\<lambda>r'. cell_of r' ''Technical'') [row_A, row_B]) = Some 8
   \<and> pd_min (map (\<lambda>r'. cell_of r' ''Technical'') [row_A, row_B]) = Some 8
   \<and> spec_norm [row_A, row_B] ''Technical'' 8 = 0
   \<and> norm_cell [row_A, row_B] ''Technical'' row_A = None
   \<and> norm_cell [row_A, row_B] ''Technical'' row_B = None"
  by code_simp


section \<open>Composite Score: the mean along a row (C7)\<close>

text \<open>
  C7, as amended. The composite score of a candidate is the mean over the composite
  columns whose cell is there for that candidate; a missing cell is left out of the
  mean and never counted as zero, and the score is missing when no cell is there.
  Without normalization these are the metric columns the candidate has values for.
  With normalization they are the metric columns the candidate has values for whose
  maximum differs from their minimum: the normalized cells of a constant column are
  missing for every candidate, so such a metric is left out of every mean.
\<close>

theorem composite_mean_over_present_cells:
  "(weight_method cfg = Composite_Score \<longrightarrow>
      score_column cfg df r = composite_score (cfg_normalize cfg) df (df_metrics df) r)
   \<and> composite_score False df ms r =
       (let vs = map (\<lambda>m. the (cell_of r m)) (own_columns ms r)
        in if vs = [] then None else Some (sum_list vs / real (length vs)))
   \<and> composite_score True df ms r =
       (let vs = map (\<lambda>m. the (norm_cell df m r))
                   (filter (\<lambda>m. pd_max (map (\<lambda>r'. cell_of r' m) df)
                                  \<noteq> pd_min (map (\<lambda>r'. cell_of r' m) df))
                      (own_columns ms r))
        in if vs = [] then None else Some (sum_list vs / real (length vs)))"
proof (intro conjI impI)
  assume "weight_method cfg = Composite_Score"
  then show "score_column cfg df r = composite_score (cfg_normalize cfg) df (df_metrics df) r"
    by (simp add: score_column_def)
next
  show "composite_score False df ms r =
       (let vs = map (\<lambda>m. the (cell_of r m)) (own_columns ms r)
        in if vs = [] then None else Some (sum_list vs / real (length vs)))"
    by (rule composite_score_raw)
next
  show "composite_score True df ms r =
       (let vs = map (\<lambda>m. the (norm_cell df m r))
                   (filter (\<lambda>m. pd_max (map (\<lambda>r'. cell_of r' m) df)
                                  \<noteq> pd_min (map (\<lambda>r'. cell_of r' m) df))
                      (own_columns ms r))
        in if vs = [] then None else Some (sum_list vs / real (length vs)))"
    by (rule composite_score_normalized)
qed

text \<open>
  The theorem at the specification's missing-score example, without normalization: D
  has no Communication score, and its composite score is its Technical value alone, 9,
  not (9 + 0) / 2.
\<close>

theorem composite_mean_over_present_cells_witness:
  "weight_method ((example_config Composite_Score 4)\<lparr>cfg_normalize := False\<rparr>) = Composite_Score
   \<and> own_columns (df_metrics [row_A, row_B, row_C, row_D]) row_D = [''Technical'']
   \<and> score_column ((example_config Composite_Score 4)\<lparr>cfg_normalize := False\<rparr>)
        [row_A, row_B, row_C, row_D] row_D = Some 9"
proof -
  define cfg where "cfg = (example_config Composite_Score 4)\<lparr>cfg_normalize := False\<rparr>"
  define df where "df = [row_A, row_B, row_C, row_D]"
  have w: "weight_method cfg = Composite_Score" unfolding cfg_def by code_simp
  have nn: "cfg_normalize cfg = False" unfolding cfg_def by code_simp
  have own: "own_columns (df_metrics df) row_D = [''Technical'']" unfolding df_def by code_simp
  have v: "the (cell_of row_D ''Technical'') = 9" by code_simp
  note inst = composite_mean_over_present_cells [of cfg df row_D "df_metrics df"]
  from inst w have "score_column cfg df row_D = composite_score False df (df_metrics df) row_D"
    by (simp only: nn)
  also from inst have "\<dots> = (let vs = map (\<lambda>m. the (cell_of row_D m)) (own_columns (df_metrics df) row_D)
        in if vs = [] then None else Some (sum_list vs / real (length vs)))"
    by blast
  also have "\<dots> = Some 9" by (simp add: own v)
  finally have "score_column cfg df row_D = Some 9" .
  with w own show ?thesis unfolding cfg_def df_def by (intro conjI)
qed

text \<open>
  C7 as stated fails with normalization where a column is constant. A and B both have
  Technical 8. B has values for both metrics, so its specified composite score is the
  mean of the two normalized values, (0.0 + 1.0) / 2; the computed composite score is
  the mean over the Communication column alone, 1, the normalized Technical cell being
  missing.
\<close>

theorem composite_constant_column_counterexample:
  "own_columns (df_metrics [row_A, row_B]) row_B = [''Technical'', ''Communication'']
   \<and> spec_composite True [row_A, row_B] (df_metrics [row_A, row_B]) row_B = Some (1 / 2)
   \<and> composite_cells True [row_A, row_B] (df_metrics [row_A, row_B]) row_B = [None, Some 1]
   \<and> composite_score True [row_A, row_B] (df_metrics [row_A, row_B]) row_B = Some 1"
  by code_simp


section \<open>The dashboard's mean and maximum (C4)\<close>

text \<open>
  C4, as amended. The mean statistic of the dashboard is the mean of the per-metric
  means: each metric column with a value contributes the mean of its present values,
  and these column means are averaged with equal weight. It equals the arithmetic mean
  of all present values when every metric column has the same number of present values
  (in particular when no cell is missing). The maximum statistic equals the maximum of
  all present values. Both are the statistics the page shows when it shows any.
\<close>

theorem dashboard_mean_and_max:
  "avg_total df_scores =
     (let means = map (\<lambda>m. sum_list (present (score_column_cells df_scores m))
                             / real (length (present (score_column_cells df_scores m))))
                    (filter (\<lambda>m. present (score_column_cells df_scores m) \<noteq> [])
                       (score_columns df_scores))
      in if means = [] then None else Some (sum_list means / real (length means)))
   \<and> (score_columns df_scores \<noteq> [] \<and> 0 < k
        \<and> (\<forall>m \<in> set (score_columns df_scores).
               length (present (score_column_cells df_scores m)) = k)
        \<longrightarrow> avg_total df_scores = Some (spec_mean df_scores))
   \<and> top_score df_scores =
       (if table_values df_scores = [] then None else Some (Max (set (table_values df_scores))))
   \<and> (show_analytics_dashboard rp selected = Inr (Shown km)
        \<and> (list_sessions rp \<noteq> [] \<longrightarrow>
               selected \<in> set (dict_keys (session_options (list_sessions rp))))
        \<longrightarrow> average_score km = avg_total (all_scores rp (selected_candidates rp selected))
            \<and> highest_score km = top_score (all_scores rp (selected_candidates rp selected)))"
proof (intro conjI impI)
  show "avg_total df_scores =
     (let means = map (\<lambda>m. sum_list (present (score_column_cells df_scores m))
                             / real (length (present (score_column_cells df_scores m))))
                    (filter (\<lambda>m. present (score_column_cells df_scores m) \<noteq> [])
                       (score_columns df_scores))
      in if means = [] then None else Some (sum_list means / real (length means)))"
    unfolding avg_total_def by (rule pd_mean_of_means)
next
  assume "score_columns df_scores \<noteq> [] \<and> 0 < k
        \<and> (\<forall>m \<in> set (score_columns df_scores).
               length (present (score_column_cells df_scores m)) = k)"
  then have "score_columns df_scores \<noteq> []" and "0 < k"
    and "\<forall>m \<in> set (score_columns df_scores). length (present (score_column_cells df_scores m)) = k"
    by simp_all
  then show "avg_total df_scores = Some (spec_mean df_scores)"
    unfolding avg_total_def spec_mean_def table_values_def
    by (rule pd_mean_of_means_equal_counts)
next
  show "top_score df_scores =
       (if table_values df_scores = [] then None else Some (Max (set (table_values df_scores))))"
    unfolding top_score_def table_values_def by (rule pd_max_of_maxes)
next
  assume a: "show_analytics_dashboard rp selected = Inr (Shown km)
        \<and> (list_sessions rp \<noteq> [] \<longrightarrow>
               selected \<in> set (dict_keys (session_options (list_sessions rp))))"
  then have sel: "list_sessions rp \<noteq> [] \<longrightarrow>
               selected \<in> set (dict_keys (session_options (list_sessions rp)))" by simp
  have "average_score km = avg_total (all_scores rp (selected_candidates rp selected))
            \<and> highest_score km = top_score (all_scores rp (selected_candidates rp selected))"
    using a unfolding dashboard_cases [OF sel] by (auto split: if_splits)
  then show "average_score km = avg_total (all_scores rp (selected_candidates rp selected))"
    and "highest_score km = top_score (all_scores rp (selected_candidates rp selected))"
    by simp_all
qed

text \<open>
  The theorem at the Panel session of the example repository (A, B, C, each with both
  metrics, so two present values per metric): the page shows the mean of all six values,
  43/6, and their maximum, 9.
\<close>

theorem dashboard_mean_and_max_witness:
  "''Panel (N/A)'' \<in> set (dict_keys (session_options (list_sessions example_repo)))
   \<and> score_columns (all_scores example_repo (selected_candidates example_repo ''Panel (N/A)''))
       = [''Technical'', ''Communication'']
   \<and> length (present (score_column_cells
         (all_scores example_repo (selected_candidates example_repo ''Panel (N/A)'')) ''Technical'')) = 3
   \<and> length (present (score_column_cells
         (all_scores example_repo (selected_candidates example_repo ''Panel (N/A)'')) ''Communication'')) = 3
   \<and> spec_mean (all_scores example_repo (selected_candidates example_repo ''Panel (N/A)'')) = 43 / 6
   \<and> show_analytics_dashboard example_repo ''Panel (N/A)'' =
       Inr (Shown \<lparr>total_candidates = 3, average_score = Some (43 / 6), evaluated = 3,
                   highest_score = Some 9\<rparr>)
   \<and> avg_total (all_scores example_repo (selected_candidates example_repo ''Panel (N/A)''))
       = Some (43 / 6)"
proof -
  define df where "df = all_scores example_repo (selected_candidates example_repo ''Panel (N/A)'')"
  have key: "''Panel (N/A)'' \<in> set (dict_keys (session_options (list_sessions example_repo)))"
    by code_simp
  have cols: "score_columns df = [''Technical'', ''Communication'']"
    unfolding df_def by code_simp
  have t: "length (present (score_column_cells df ''Technical'')) = 3"
    unfolding df_def by code_simp
  have c: "length (present (score_column_cells df ''Communication'')) = 3"
    unfolding df_def by code_simp
  have sm: "spec_mean df = 43 / 6" unfolding df_def by code_simp
  have page: "show_analytics_dashboard example_repo ''Panel (N/A)'' =
       Inr (Shown \<lparr>total_candidates = 3, average_score = Some (43 / 6), evaluated = 3,
                   highest_score = Some 9\<rparr>)"
    by code_simp
  have hyp: "score_columns df \<noteq> [] \<and> (0::nat) < 3
        \<and> (\<forall>m \<in> set (score_columns df). length (present (score_column_cells df m)) = 3)"
    by (simp add: cols t c)
  note inst = dashboard_mean_and_max [of df 3 example_repo "''Panel (N/A)''"
      "\<lparr>total_candidates = 3, average_score = Some (43 / 6), evaluated = 3,
        highest_score = Some 9\<rparr>"]
  from inst [THEN conjunct2, THEN conjunct1] hyp
  have "avg_total df = Some (spec_mean df)" by (rule mp)
  then have avg: "avg_total df = Some (43 / 6)" by (simp only: sm)
  from key cols t c sm page avg show ?thesis unfolding df_def by (intro conjI)
qed

text \<open>
  C4 as stated fails where the metrics differ in their number of values. In the Spring
  session A has Technical 8 and Communication 6 and D has Technical 9 only: the mean of
  the three present values is 23/3, and the page shows (8.5 + 6) / 2 = 29/4.
\<close>

theorem dashboard_mean_counterexample:
  "table_values (all_scores example_repo (selected_candidates example_repo ''Spring (2024-03-01)''))
     = [8, 9, 6]
   \<and> spec_mean (all_scores example_repo (selected_candidates example_repo ''Spring (2024-03-01)''))
       = 23 / 3
   \<and> show_analytics_dashboard example_repo ''Spring (2024-03-01)'' =
       Inr (Shown \<lparr>total_candidates = 3, average_score = Some (29 / 4), evaluated = 2,
                   highest_score = Some 9\<rparr>)"
  by code_simp


section \<open>The order of the metric columns, and missing cells in the export (C8)\<close>

text \<open>
  C8, as amended. The metric columns of the ranking table and of the export table hold
  each observed metric name once, in the order in which the names are first observed:
  the candidates in listing order, the scores of each candidate in the order the
  repository returns them (in the export, a candidate without scores brings the names
  of the registry, in registry order). So of two columns the one whose metric occurs
  first in that sequence comes first; the registry decides nothing else. In the export
  table the cell of a candidate in a metric it has no score for is missing, not a
  number; the cell of a scored metric holds the value of the candidate's score for it
  (the last one, if the repository returns several), a zero only if that value is zero.
\<close>

theorem columns_in_first_observed_order:
  "distinct (df_metrics (candidate_data rp cands))
   \<and> set (df_metrics (candidate_data rp cands)) =
       set (filter (\<lambda>m. m \<notin> set reserved_columns) (observed_metrics rp cands))
   \<and> sorted_wrt
        (\<lambda>a b. first_position (filter (\<lambda>m. m \<notin> set reserved_columns) (observed_metrics rp cands)) a
               < first_position (filter (\<lambda>m. m \<notin> set reserved_columns) (observed_metrics rp cands)) b)
        (df_metrics (candidate_data rp cands))
   \<and> distinct (export_metric_columns (export_data registry rp cands))
   \<and> set (export_metric_columns (export_data registry rp cands)) =
       set (filter (\<lambda>m. m \<notin> set export_fixed_columns) (export_observed registry rp cands))
   \<and> sorted_wrt
        (\<lambda>a b. first_position
                 (filter (\<lambda>m. m \<notin> set export_fixed_columns) (export_observed registry rp cands)) a
               < first_position
                   (filter (\<lambda>m. m \<notin> set export_fixed_columns) (export_observed registry rp cands)) b)
        (export_metric_columns (export_data registry rp cands))
   \<and> export_cell (export_row_of registry rp cand) m =
       (case filter (\<lambda>s. metric s = m) (get_scores_for_candidate rp (cand_id cand)) of
          [] \<Rightarrow> None
        | s # ss \<Rightarrow> Some (svalue (last (s # ss))))"
proof (intro conjI)
  show "distinct (df_metrics (candidate_data rp cands))"
    unfolding df_metrics_candidate_data by (rule distinct_fast_unique)
  show "set (df_metrics (candidate_data rp cands)) =
       set (filter (\<lambda>m. m \<notin> set reserved_columns) (observed_metrics rp cands))"
    unfolding df_metrics_candidate_data by (rule set_fast_unique)
  show "sorted_wrt
        (\<lambda>a b. first_position (filter (\<lambda>m. m \<notin> set reserved_columns) (observed_metrics rp cands)) a
               < first_position (filter (\<lambda>m. m \<notin> set reserved_columns) (observed_metrics rp cands)) b)
        (df_metrics (candidate_data rp cands))"
    unfolding df_metrics_candidate_data by (rule sorted_first_position)
  show "distinct (export_metric_columns (export_data registry rp cands))"
    unfolding export_metric_columns_export_data by (rule distinct_fast_unique)
  show "set (export_metric_columns (export_data registry rp cands)) =
       set (filter (\<lambda>m. m \<notin> set export_fixed_columns) (export_observed registry rp cands))"
    unfolding export_metric_columns_export_data by (rule set_fast_unique)
  show "sorted_wrt
        (\<lambda>a b. first_position
                 (filter (\<lambda>m. m \<notin> set export_fixed_columns) (export_observed registry rp cands)) a
               < first_position
                   (filter (\<lambda>m. m \<notin> set export_fixed_columns) (export_observed registry rp cands)) b)
        (export_metric_columns (export_data registry rp cands))"
    unfolding export_metric_columns_export_data by (rule sorted_first_position)
  show "export_cell (export_row_of registry rp cand) m =
       (case filter (\<lambda>s. metric s = m) (get_scores_for_candidate rp (cand_id cand)) of
          [] \<Rightarrow> None
        | s # ss \<Rightarrow> Some (svalue (last (s # ss))))"
    by (rule export_cell_value)
qed

text \<open>
  The theorem at the Review session of the example repository, where E (Communication
  only) is listed before B (Technical, Communication): the names are observed in the
  order Communication, Technical, Communication, and Communication, first observed at
  position 0, stands before Technical, first observed at position 1. In the export, D
  has no Communication score and its Communication cell is missing; Z has the
  Technical score zero and its Technical cell is zero.
\<close>

theorem columns_in_first_observed_order_witness:
  "observed_metrics example_repo (selected_candidates example_repo ''Review (N/A)'')
     = [''Communication'', ''Technical'', ''Communication'']
   \<and> df_metrics (candidate_data example_repo (selected_candidates example_repo ''Review (N/A)''))
       = [''Communication'', ''Technical'']
   \<and> first_position [''Communication'', ''Technical'', ''Communication''] ''Communication''
       < first_position [''Communication'', ''Technical'', ''Communication''] ''Technical''
   \<and> export_cell (export_row_of example_registry example_repo (example_candidate 4 ''D''))
        ''Communication'' = None
   \<and> export_cell (export_row_of example_registry example_repo (example_candidate 7 ''Z''))
        ''Technical'' = Some 0"
proof -
  define cands where "cands = selected_candidates example_repo ''Review (N/A)''"
  have obs: "observed_metrics example_repo cands = [''Communication'', ''Technical'', ''Communication'']"
    unfolding cands_def by code_simp
  have flt: "filter (\<lambda>m. m \<notin> set reserved_columns) (observed_metrics example_repo cands)
       = [''Communication'', ''Technical'', ''Communication'']"
    unfolding cands_def by code_simp
  have cols: "df_metrics (candidate_data example_repo cands) = [''Communication'', ''Technical'']"
    unfolding cands_def by code_simp
  have none: "filter (\<lambda>s. metric s = ''Communication'')
        (get_scores_for_candidate example_repo (cand_id (example_candidate 4 ''D''))) = []"
    by code_simp
  have zero: "filter (\<lambda>s. metric s = ''Technical'')
        (get_scores_for_candidate example_repo (cand_id (example_candidate 7 ''Z'')))
      = [example_score ''Technical'' 0]"
    by code_simp
  have val: "svalue (example_score ''Technical'' 0) = 0" by code_simp
  note review = columns_in_first_observed_order [of example_repo cands example_registry
      "example_candidate 4 ''D''" "''Communication''"]
  note winter = columns_in_first_observed_order [of example_repo cands example_registry
      "example_candidate 7 ''Z''" "''Technical''"]
  from review have "sorted_wrt
        (\<lambda>a b. first_position (filter (\<lambda>m. m \<notin> set reserved_columns)
                   (observed_metrics example_repo cands)) a
               < first_position (filter (\<lambda>m. m \<notin> set reserved_columns)
                   (observed_metrics example_repo cands)) b)
        (df_metrics (candidate_data example_repo cands))"
    by (elim conjE)
  then have pos: "first_position [''Communication'', ''Technical'', ''Communication''] ''Communication''
       < first_position [''Communication'', ''Technical'', ''Communication''] ''Technical''"
    unfolding flt cols by simp
  from review have "export_cell (export_row_of example_registry example_repo (example_candidate 4 ''D''))
        ''Communication'' =
       (case filter (\<lambda>s. metric s = ''Communication'')
          (get_scores_for_candidate example_repo (cand_id (example_candidate 4 ''D''))) of
          [] \<Rightarrow> None
        | s # ss \<Rightarrow> Some (svalue (last (s # ss))))"
    by (elim conjE)
  then have d: "export_cell (export_row_of example_registry example_repo (example_candidate 4 ''D''))
        ''Communication'' = None"
    unfolding none by simp
  from winter have "export_cell (export_row_of example_registry example_repo (example_candidate 7 ''Z''))
        ''Technical'' =
       (case filter (\<lambda>s. metric s = ''Technical'')
          (get_scores_for_candidate example_repo (cand_id (example_candidate 7 ''Z''))) of
          [] \<Rightarrow> None
        | s # ss \<Rightarrow> Some (svalue (last (s # ss))))"
    by (elim conjE)
  then have z: "export_cell (export_row_of example_registry example_repo (example_candidate 7 ''Z''))
        ''Technical'' = Some 0"
    unfolding zero by (simp add: val)
  from obs cols pos d z show ?thesis unfolding cands_def by (intro conjI)
qed

text \<open>
  C8 as stated fails at the Review session, with the registry Technical, Communication.
  E has a Communication score only and is listed before B, so Communication is observed
  first: the metric columns of the ranking table and of the export are Communication,
  Technical, not the registry order.
\<close>

theorem registry_order_counterexample:
  "df_metrics (candidate_data example_repo (selected_candidates example_repo ''Review (N/A)''))
     = [''Communication'', ''Technical'']
   \<and> export_metric_columns
        (export_data example_registry example_repo (selected_candidates example_repo ''Review (N/A)''))
       = [''Communication'', ''Technical'']
   \<and> registry_order example_registry [''Communication'', ''Technical'']
       = [''Technical'', ''Communication'']"
  by code_simp


section \<open>No data is information, not failure, and not zero (C9)\<close>

text \<open>
  C9. Given a session picked from the select box, the dashboard page raises no error.
  It shows an informational message exactly when there is no data: no session at all,
  or no candidate in the selected session with any score (which includes a session
  without candidates). Otherwise it shows the statistics record, also when every score
  is zero; a message and a statistics record are different results.
\<close>

theorem no_data_is_information:
  assumes "list_sessions rp \<noteq> [] \<longrightarrow>
             selected \<in> set (dict_keys (session_options (list_sessions rp)))"
  shows "\<exists>res. show_analytics_dashboard rp selected = Inr res
           \<and> ((\<exists>msg. res = Info msg) \<longleftrightarrow>
                 list_sessions rp = []
                 \<or> (\<forall>c \<in> set (selected_candidates rp selected).
                       get_scores_for_candidate rp (cand_id c) = []))
           \<and> ((\<exists>km. res = Shown km) \<longleftrightarrow>
                 list_sessions rp \<noteq> []
                 \<and> (\<exists>c \<in> set (selected_candidates rp selected).
                       get_scores_for_candidate rp (cand_id c) \<noteq> []))"
proof -
  let ?none = "\<forall>c \<in> set (selected_candidates rp selected).
                 get_scores_for_candidate rp (cand_id c) = []"
  have empty: "selected_candidates rp selected = [] \<Longrightarrow> ?none" by simp
  consider (a) "list_sessions rp = []"
    | (b) "list_sessions rp \<noteq> []" "selected_candidates rp selected = []"
    | (c) "list_sessions rp \<noteq> []" "selected_candidates rp selected \<noteq> []" "?none"
    | (d) "list_sessions rp \<noteq> []" "selected_candidates rp selected \<noteq> []" "\<not> ?none"
    by fastforce
  then show ?thesis
  proof cases
    case a
    have "show_analytics_dashboard rp selected =
        Inr (Info ''No sessions available. Create an interview session first.'')"
      unfolding dashboard_cases [OF assms] by (simp only: if_P [OF a])
    then show ?thesis using a by simp
  next
    case b
    have "show_analytics_dashboard rp selected = Inr (Info ''No candidates in this session yet.'')"
      unfolding dashboard_cases [OF assms] by (simp only: if_not_P [OF b(1)] if_P [OF b(2)])
    then show ?thesis using b by simp
  next
    case c
    have "show_analytics_dashboard rp selected =
        Inr (Info ''No scores recorded yet. Start evaluating candidates.'')"
      unfolding dashboard_cases [OF assms]
      by (simp only: if_not_P [OF c(1)] if_not_P [OF c(2)] if_P [OF c(3)])
    then show ?thesis using c by simp
  next
    case d
    have "\<exists>km. show_analytics_dashboard rp selected = Inr (Shown km)"
      unfolding dashboard_cases [OF assms]
      unfolding if_not_P [OF d(1)] if_not_P [OF d(2)] if_not_P [OF d(3)]
      by (rule exI) (rule refl)
    then obtain km where "show_analytics_dashboard rp selected = Inr (Shown km)" ..
    then show ?thesis using d by simp
  qed
qed

text \<open>
  The theorem at the example repository: the Autumn session, whose only candidate has
  no score, gives a message; the Winter session, whose candidate has two scores of
  zero, gives the statistics record with mean 0 and maximum 0.
\<close>

theorem no_data_is_information_witness:
  "''Autumn (N/A)'' \<in> set (dict_keys (session_options (list_sessions example_repo)))
   \<and> ''Winter (N/A)'' \<in> set (dict_keys (session_options (list_sessions example_repo)))
   \<and> show_analytics_dashboard example_repo ''Autumn (N/A)'' =
       Inr (Info ''No scores recorded yet. Start evaluating candidates.'')
   \<and> show_analytics_dashboard example_repo ''Winter (N/A)'' =
       Inr (Shown \<lparr>total_candidates = 1, average_score = Some 0, evaluated = 1,
                   highest_score = Some 0\<rparr>)
   \<and> (\<exists>res. show_analytics_dashboard example_repo ''Autumn (N/A)'' = Inr res
         \<and> (\<exists>msg. res = Info msg))
   \<and> (\<exists>res. show_analytics_dashboard example_repo ''Winter (N/A)'' = Inr res
         \<and> (\<exists>km. res = Shown km))"
proof -
  have ka: "''Autumn (N/A)'' \<in> set (dict_keys (session_options (list_sessions example_repo)))"
    by code_simp
  have kw: "''Winter (N/A)'' \<in> set (dict_keys (session_options (list_sessions example_repo)))"
    by code_simp
  have pa: "show_analytics_dashboard example_repo ''Autumn (N/A)'' =
       Inr (Info ''No scores recorded yet. Start evaluating candidates.'')" by code_simp
  have pw: "show_analytics_dashboard example_repo ''Winter (N/A)'' =
       Inr (Shown \<lparr>total_candidates = 1, average_score = Some 0, evaluated = 1,
                   highest_score = Some 0\<rparr>)" by code_simp
  have na: "list_sessions example_repo = []
        \<or> (\<forall>c \<in> set (selected_candidates example_repo ''Autumn (N/A)'').
              get_scores_for_candidate example_repo (cand_id c) = [])" by code_simp
  have nw: "list_sessions example_repo \<noteq> []
        \<and> (\<exists>c \<in> set (selected_candidates example_repo ''Winter (N/A)'').
              get_scores_for_candidate example_repo (cand_id c) \<noteq> [])" by code_simp
  from no_data_is_information [of example_repo "''Autumn (N/A)''"] ka na
  have ra: "\<exists>res. show_analytics_dashboard example_repo ''Autumn (N/A)'' = Inr res
         \<and> (\<exists>msg. res = Info msg)" by auto
  from no_data_is_information [of example_repo "''Winter (N/A)''"] kw nw
  have rw: "\<exists>res. show_analytics_dashboard example_repo ''Winter (N/A)'' = Inr res
         \<and> (\<exists>km. res = Shown km)" by auto
  from ka kw pa pw ra rw show ?thesis by (intro conjI)
qed


end
